theory Spec2Isabelle
  imports Main
begin

section \<open>Data model\<close>

text \<open>
  Exceptions of class \<open>Exception\<close>, as far as the code tells them apart.
  Each carries the text that \<open>str(e)\<close> returns. Interrupts
  (\<open>KeyboardInterrupt\<close>, \<open>SystemExit\<close>) are not of class \<open>Exception\<close>
  and are outside this model.
\<close>

datatype exn =
    FileNotFoundError string
  | SpreadsheetNotFound string
  | ValueError string
  | APIError string
  | OtherError string

fun exn_str :: "exn \<Rightarrow> string" where
  "exn_str (FileNotFoundError m) = m"
| "exn_str (SpreadsheetNotFound m) = m"
| "exn_str (ValueError m) = m"
| "exn_str (APIError m) = m"
| "exn_str (OtherError m) = m"

text \<open>The pydantic models of \<open>llm_func.py\<close>.\<close>

datatype confidence_level = High | Medium | Low

record ResumeValidation =
  is_resume :: bool
  confidence :: confidence_level
  document_type :: string
  reason :: string

datatype status_tag = New | Old

record Interns =
  name :: string
  email :: string
  phone :: string
  skills :: "string list"
  exp :: string
  status :: status_tag
  summary :: string
  question :: string

text \<open>
  The dictionaries that \<open>read_email\<close> builds: one per message, with the keys
  \<open>id\<close>, \<open>sender\<close>, \<open>subject\<close>, \<open>body\<close> and \<open>attachments\<close>; an attachment has a
  \<open>filename\<close> and an \<open>attachment_id\<close> (which \<open>.get('attachmentId')\<close> may leave
  \<open>None\<close>).
\<close>

record attachment =
  filename :: string
  attachment_id :: "string option"

record email_data =
  msg_id :: string
  sender :: string
  subject :: string
  body :: string
  attachments :: "attachment list"

text \<open>
  Values that reach a spreadsheet cell or sit in the dictionary of
  \<open>model_dump()\<close>: a string or a list of strings.
\<close>

datatype pyval = S string | L "string list"

type_synonym row = "pyval list"

section \<open>The world outside the program\<close>

text \<open>
  Every call of an external collaborator is recorded, in order. The outcome of
  a call is a function of the calls made so far and of the call's arguments, so
  a collaborator may answer the same request differently at different times.
\<close>

datatype sheets_call =
    Open string
  | Create string
  | Share string string string
  | Sheet1 string
  | AppendRow string row

datatype event =
    GmailSearch string
  | GmailGet string
  | MakeDirs string
  | AttachmentGet string "string option"
  | FileWrite string
  | PdfRead string
  | Classify string string
  | Extract string string
  | Now
  | Sheets sheets_call

record env =
  gmail_search_tool :: "event list \<Rightarrow> string \<Rightarrow> exn + string list"
  gmail_get_message :: "event list \<Rightarrow> string \<Rightarrow> exn + email_data"
  os_makedirs :: "event list \<Rightarrow> string \<Rightarrow> exn option"
  os_path_join :: "string \<Rightarrow> string \<Rightarrow> string"
  attachment_get :: "event list \<Rightarrow> string \<Rightarrow> string option \<Rightarrow> exn + string"
  file_write :: "event list \<Rightarrow> string \<Rightarrow> string \<Rightarrow> exn option"
  pdf_reader :: "event list \<Rightarrow> string \<Rightarrow> exn + (exn + string) list"
  classifier :: "event list \<Rightarrow> string \<Rightarrow> string \<Rightarrow> exn + ResumeValidation"
  extractor :: "event list \<Rightarrow> string \<Rightarrow> string \<Rightarrow> exn + Interns"
  sheets_fault :: "event list \<Rightarrow> sheets_call \<Rightarrow> string option"
  now :: "event list \<Rightarrow> string"

text \<open>
  The state the program changes: the spreadsheets, by name, each a list of rows,
  and the record of collaborator calls.
\<close>

record world =
  sheets :: "string \<rightharpoonup> row list"
  trace :: "event list"

definition call :: "event \<Rightarrow> world \<Rightarrow> world" where
  "call ev s = s\<lparr>trace := trace s @ [ev]\<rparr>"

definition new_events :: "world \<Rightarrow> world \<Rightarrow> event list" where
  "new_events s s' = drop (length (trace s)) (trace s')"

text \<open>
  A computation either raises or returns a value, and leaves a world behind
  in both cases.
\<close>

type_synonym 'a comp = "world \<Rightarrow> (exn + 'a) \<times> world"

definition bind :: "'a comp \<Rightarrow> ('a \<Rightarrow> 'b comp) \<Rightarrow> 'b comp" where
  "bind m f s = (case m s of (Inl e, s') \<Rightarrow> (Inl e, s') | (Inr a, s') \<Rightarrow> f a s')"

section \<open>Strings\<close>

text \<open>
  Python strings are modelled as lists of 8-bit characters (code points below
  256). \<open>isspace\<close> is Python's notion of whitespace in that range, the one
  \<open>str.split()\<close> uses.
\<close>

definition isspace :: "char \<Rightarrow> bool" where
  "isspace c = (let n = (of_char c :: nat) in
     (9 \<le> n \<and> n \<le> 13) \<or> (28 \<le> n \<and> n \<le> 32) \<or> n = 133 \<or> n = 160)"

text \<open>\<open>s.split()\<close>: the second argument is the word being read.\<close>

fun py_split :: "string \<Rightarrow> string \<Rightarrow> string list" where
  "py_split [] w = (if w = [] then [] else [w])"
| "py_split (c # cs) w =
     (if isspace c then (if w = [] then py_split cs [] else w # py_split cs [])
      else py_split cs (w @ [c]))"

definition split_ws :: "string \<Rightarrow> string list" where
  "split_ws s = py_split s []"

text \<open>\<open>sep.join(xs)\<close>\<close>

fun join :: "string \<Rightarrow> string list \<Rightarrow> string" where
  "join sep [] = []"
| "join sep [x] = x"
| "join sep (x # y # ys) = x @ sep @ join sep (y # ys)"

definition startswith :: "string \<Rightarrow> string \<Rightarrow> bool" where
  "startswith s p = (take (length p) s = p)"

section \<open>gmail\_func.py: PDF text extraction\<close>

text \<open>
  The loop \<open>for page in reader.pages: full_txt += page.extract_text() + "\n"\<close>.
  A page whose \<open>extract_text()\<close> raises ends the loop with that exception.
\<close>

fun read_pages :: "(exn + string) list \<Rightarrow> string \<Rightarrow> exn + string" where
  "read_pages [] full_txt = Inr full_txt"
| "read_pages (page # pages) full_txt =
     (case page of
        Inl e \<Rightarrow> Inl e
      | Inr t \<Rightarrow> read_pages pages (full_txt @ t @ [CHR 0x0A]))"

text \<open>The body of the \<open>try\<close> block of \<open>extract_text_from_pdf\<close>.\<close>

definition pdf_try_block :: "env \<Rightarrow> string \<Rightarrow> string comp" where
  "pdf_try_block env pdf_path s =
     (let s' = call (PdfRead pdf_path) s in
      case pdf_reader env (trace s) pdf_path of
        Inl e \<Rightarrow> (Inl e, s')
      | Inr pages \<Rightarrow>
          (case read_pages pages [] of
             Inl e \<Rightarrow> (Inl e, s')
           | Inr full_txt \<Rightarrow> (Inr (join '' '' (split_ws full_txt)), s')))"

text \<open>
  \<open>extract_text_from_pdf\<close> with its two handlers, \<open>except FileNotFoundError\<close>
  first and \<open>except Exception\<close> second.
\<close>

definition extract_text_from_pdf :: "env \<Rightarrow> string \<Rightarrow> string comp" where
  "extract_text_from_pdf env pdf_path s =
     (case pdf_try_block env pdf_path s of
        (Inr clean_text, s') \<Rightarrow> (Inr clean_text, s')
      | (Inl (FileNotFoundError m), s') \<Rightarrow>
          (Inr (''Error: PDF file not found at '' @ pdf_path), s')
      | (Inl e, s') \<Rightarrow> (Inr (''Error reading PDF: '' @ exn_str e), s'))"

section \<open>gmail\_func.py: search, read, download\<close>

text \<open>
  \<open>search_gmail\<close>: the whole body is one \<open>try\<close> block (finding the search
  tool, invoking it, collecting the ids), whose handler returns the empty list.
\<close>

definition search_gmail :: "env \<Rightarrow> string list comp" where
  "search_gmail env s =
     (let query = ''subject:application has:attachment'';
          s' = call (GmailSearch query) s in
      case gmail_search_tool env (trace s) query of
        Inr msg_ids \<Rightarrow> (Inr msg_ids, s')
      | Inl e \<Rightarrow> (Inr [], s'))"

text \<open>
  \<open>read_email\<close>: the loop over \<open>msg_ids\<close> with the list \<open>content\<close> it appends
  to. The \<open>try\<close> block of one iteration (the API call and the reading of its
  payload) is the collaborator \<open>gmail_get_message\<close>; the handler skips the message.
\<close>

fun read_email_loop :: "env \<Rightarrow> string list \<Rightarrow> email_data list \<Rightarrow> email_data list comp" where
  "read_email_loop env [] content s = (Inr content, s)"
| "read_email_loop env (mid # rest) content s =
     (let s' = call (GmailGet mid) s in
      case gmail_get_message env (trace s) mid of
        Inr d \<Rightarrow> read_email_loop env rest (content @ [d\<lparr>msg_id := mid\<rparr>]) s'
      | Inl e \<Rightarrow> read_email_loop env rest content s')"

definition read_email :: "env \<Rightarrow> string list \<Rightarrow> email_data list comp" where
  "read_email env msg_ids s = read_email_loop env msg_ids [] s"

text \<open>The default \<open>save_path\<close> of \<open>save_pdf\<close>, the Python literal \<open>".\downloads"\<close>.\<close>

definition downloads_dir :: string where
  "downloads_dir = ''.'' @ [CHR 0x5C] @ ''downloads''"

text \<open>
  \<open>save_pdf\<close>: only the first attachment of the first email is downloaded.
  The exceptions of its \<open>try\<close> block are raised again by its handler.
\<close>

definition save_pdf :: "env \<Rightarrow> email_data list \<Rightarrow> string \<Rightarrow> (string \<times> string) comp" where
  "save_pdf env contents save_path s =
     (let s0 = call (MakeDirs save_path) s in
      case os_makedirs env (trace s) save_path of
        Some e \<Rightarrow> (Inl e, s0)
      | None \<Rightarrow>
         (case contents of
            [] \<Rightarrow> (Inl (ValueError ''No email contents to process''), s0)
          | content # _ \<Rightarrow>
             (case attachments content of
                [] \<Rightarrow> (Inl (ValueError ''No attachments in email''), s0)
              | att # _ \<Rightarrow>
                 (let s1 = call (AttachmentGet (msg_id content) (attachment_id att)) s0 in
                  case attachment_get env (trace s0) (msg_id content) (attachment_id att) of
                    Inl e \<Rightarrow> (Inl e, s1)
                  | Inr file_data \<Rightarrow>
                     (let path = os_path_join env save_path (filename att);
                          s2 = call (FileWrite path) s1 in
                      case file_write env (trace s1) path file_data of
                        Some e \<Rightarrow> (Inl e, s2)
                      | None \<Rightarrow> (Inr (path, body content), s2))))))"

section \<open>llm\_func.py: classification and extraction\<close>

text \<open>
  \<open>validate_resume\<close>: the classifier sees the first 1000 characters of the
  document and the first 500 of the email. The handler of the \<open>try\<close> block
  returns the safe default.
\<close>

definition validate_resume :: "env \<Rightarrow> string \<Rightarrow> string \<Rightarrow> ResumeValidation comp" where
  "validate_resume env pdf_text email_body s =
     (let preview = (if length pdf_text > 1000 then take 1000 pdf_text else pdf_text);
          email_content = take 500 email_body;
          s' = call (Classify email_content preview) s in
      case classifier env (trace s) email_content preview of
        Inr result \<Rightarrow> (Inr result, s')
      | Inl e \<Rightarrow>
          (Inr \<lparr>is_resume = False, confidence = Low, document_type = ''unknown'',
                reason = ''Validation error: '' @ exn_str e\<rparr>, s'))"

text \<open>Step 2 of \<open>extract_llm\<close>: the extraction call, whose handler returns \<open>None\<close>.\<close>

definition extract_candidate :: "env \<Rightarrow> string \<Rightarrow> string \<Rightarrow> Interns option comp" where
  "extract_candidate env email_body pdf_text s =
     (let s' = call (Extract email_body pdf_text) s in
      case extractor env (trace s) email_body pdf_text of
        Inr result \<Rightarrow> (Inr (Some result), s')
      | Inl e \<Rightarrow> (Inr None, s'))"

definition extract_llm :: "env \<Rightarrow> string \<Rightarrow> string \<Rightarrow> bool \<Rightarrow> Interns option comp" where
  "extract_llm env email_body pdf_text skip_validation s =
     (if \<not> skip_validation then
        (case validate_resume env pdf_text email_body s of
           (Inl e, s') \<Rightarrow> (Inl e, s')
         | (Inr validation, s') \<Rightarrow>
             if \<not> is_resume validation then (Inr None, s')
             else if confidence validation = Low then (Inr None, s')
             else extract_candidate env email_body pdf_text s')
      else extract_candidate env email_body pdf_text s)"

section \<open>llm\_func.py: the two sheets\<close>

text \<open>
  Modelled from the spec: the tabular store collaborator (the gspread client,
  which is not code of this repository), with the contract of section 6:
  \<open>open(name)\<close> finds the store or raises \<open>SpreadsheetNotFound\<close>, \<open>create(name)\<close>
  makes an empty one, \<open>appendRow\<close> adds a row at the end, \<open>share\<close> grants access.
  Any call may also fail for a reason of the service's own (\<open>sheets_fault\<close>), and
  then changes nothing. A store is addressed by its name.
\<close>

definition sheets_api :: "env \<Rightarrow> sheets_call \<Rightarrow> unit comp" where
  "sheets_api env c s =
     (let s' = call (Sheets c) s in
      case sheets_fault env (trace s) c of
        Some m \<Rightarrow> (Inl (APIError m), s')
      | None \<Rightarrow>
         (case c of
            Open n \<Rightarrow>
              (case sheets s n of
                 None \<Rightarrow> (Inl (SpreadsheetNotFound n), s')
               | Some _ \<Rightarrow> (Inr (), s'))
          | Create n \<Rightarrow> (Inr (), s'\<lparr>sheets := (sheets s)(n \<mapsto> [])\<rparr>)
          | Share n who role \<Rightarrow> (Inr (), s')
          | Sheet1 n \<Rightarrow> (Inr (), s')
          | AppendRow n r \<Rightarrow>
              (case sheets s n of
                 None \<Rightarrow> (Inl (SpreadsheetNotFound n), s')
               | Some rows \<Rightarrow> (Inr (), s'\<lparr>sheets := (sheets s)(n \<mapsto> rows @ [r])\<rparr>))))"

text \<open>\<open>data.get(key, default)\<close> and \<open>model_dump()\<close>.\<close>

definition dict_get :: "(string \<rightharpoonup> pyval) \<Rightarrow> string \<Rightarrow> pyval \<Rightarrow> pyval" where
  "dict_get d k dflt = (case d k of None \<Rightarrow> dflt | Some v \<Rightarrow> v)"

definition model_dump :: "Interns \<Rightarrow> (string \<rightharpoonup> pyval)" where
  "model_dump d = map_of
     [(''name'', S (name d)), (''email'', S (email d)), (''phone'', S (phone d)),
      (''skills'', L (skills d)), (''exp'', S (exp d)),
      (''status'', S (case status d of New \<Rightarrow> ''New'' | Old \<Rightarrow> ''Old'')),
      (''summary'', S (summary d)), (''question'', S (question d))]"

definition candidate_row :: "(string \<rightharpoonup> pyval) \<Rightarrow> row" where
  "candidate_row data =
     (let skills_v = dict_get data ''skills'' (L []);
          skills_str = (case skills_v of L xs \<Rightarrow> S (join '', '' xs) | S x \<Rightarrow> S x) in
      [dict_get data ''name'' (S []), dict_get data ''email'' (S []),
       dict_get data ''phone'' (S []), skills_str, dict_get data ''exp'' (S []),
       dict_get data ''status'' (S []), dict_get data ''summary'' (S []),
       dict_get data ''question'' (S [])])"

definition candidate_headers :: row where
  "candidate_headers =
     [S ''Name'', S ''Email'', S ''Phone'', S ''Skills'', S ''Experience'', S ''Status'',
      S ''Summary'', S ''questions'']"

definition rejected_headers :: row where
  "rejected_headers =
     [S ''Timestamp'', S ''Sender'', S ''Document Type'', S ''Rejection Reason'']"

definition collaborator :: string where
  "collaborator = ''mdhananjay776@gmail.com''"

text \<open>
  The \<open>try\<close> block shared by both functions (open, first worksheet, append) and
  the handler of \<open>SpreadsheetNotFound\<close> (create, share, first worksheet, header,
  row). Any other exception leaves the function.
\<close>

definition append_to_existing :: "env \<Rightarrow> string \<Rightarrow> row \<Rightarrow> unit comp" where
  "append_to_existing env file_name r =
     bind (sheets_api env (Open file_name)) (\<lambda>_.
     bind (sheets_api env (Sheet1 file_name)) (\<lambda>_.
     sheets_api env (AppendRow file_name r)))"

definition create_with_headers :: "env \<Rightarrow> string \<Rightarrow> row \<Rightarrow> row \<Rightarrow> unit comp" where
  "create_with_headers env file_name headers r =
     bind (sheets_api env (Create file_name)) (\<lambda>_.
     bind (sheets_api env (Share file_name collaborator ''writer'')) (\<lambda>_.
     bind (sheets_api env (Sheet1 file_name)) (\<lambda>_.
     bind (sheets_api env (AppendRow file_name headers)) (\<lambda>_.
     sheets_api env (AppendRow file_name r)))))"

text \<open>The \<open>try\<close> statement as a whole, which both functions share.\<close>

definition append_or_create :: "env \<Rightarrow> string \<Rightarrow> row \<Rightarrow> row \<Rightarrow> unit comp" where
  "append_or_create env file_name headers r s =
     (case append_to_existing env file_name r s of
        (Inl (SpreadsheetNotFound m), s') \<Rightarrow> create_with_headers env file_name headers r s'
      | other \<Rightarrow> other)"

definition save_to_sheets :: "env \<Rightarrow> (string \<rightharpoonup> pyval) \<Rightarrow> string \<Rightarrow> unit comp" where
  "save_to_sheets env data file_name s =
     (let r = candidate_row data in
      append_or_create env file_name candidate_headers r s)"

definition save_rejected_to_sheets ::
    "env \<Rightarrow> string \<Rightarrow> string \<Rightarrow> string \<Rightarrow> string \<Rightarrow> unit comp" where
  "save_rejected_to_sheets env email_sender doc_type rsn file_name s =
     (let timestamp = now env (trace s);
          s0 = call Now s;
          r = [S timestamp, S email_sender, S doc_type, S rsn] in
      append_or_create env file_name rejected_headers r s0)"

section \<open>main.py: one pass\<close>

text \<open>
  Steps 5 to 7 of the loop body: \<open>extract_llm\<close> with validation on, then the
  rejection sheet when it returned \<open>None\<close> and the candidates sheet otherwise
  (whose exceptions the inner handler logs and raises again).
\<close>

definition validate_and_route :: "env \<Rightarrow> email_data \<Rightarrow> string \<Rightarrow> string \<Rightarrow> unit comp" where
  "validate_and_route env email_data body_txt pdf_txt s =
     (case extract_llm env body_txt pdf_txt False s of
        (Inl e, s') \<Rightarrow> (Inl e, s')
      | (Inr None, s') \<Rightarrow>
          save_rejected_to_sheets env (sender email_data) ''non-resume''
            ''Failed resume validation check'' ''rejected_applications'' s'
      | (Inr (Some data), s') \<Rightarrow> save_to_sheets env (model_dump data) ''candidates'' s')"

text \<open>
  The body of the outer \<open>try\<close> block for one email. \<open>Inr ()\<close> is reaching the end
  of the body or a \<open>continue\<close> inside it; \<open>Inl e\<close> is an exception that reaches the
  outer handler.
\<close>

definition process_email :: "env \<Rightarrow> email_data \<Rightarrow> unit comp" where
  "process_email env email_data s =
     (if attachments email_data = [] then (Inr (), s)
      else
        (case save_pdf env [email_data] downloads_dir s of
           (Inl e, s1) \<Rightarrow> (Inr (), s1)
         | (Inr (path, body_txt), s1) \<Rightarrow>
            (case extract_text_from_pdf env path s1 of
               (Inl e, s2) \<Rightarrow> (Inl e, s2)
             | (Inr pdf_txt, s2) \<Rightarrow>
                 if startswith pdf_txt ''Error'' then (Inr (), s2)
                 else validate_and_route env email_data body_txt pdf_txt s2)))"

text \<open>The loop over \<open>content\<close>; the outer handler logs and continues.\<close>

fun for_each_email :: "env \<Rightarrow> email_data list \<Rightarrow> unit comp" where
  "for_each_email env [] s = (Inr (), s)"
| "for_each_email env (email_data # rest) s =
     (case process_email env email_data s of
        (Inl e, s') \<Rightarrow> for_each_email env rest s'
      | (Inr _, s') \<Rightarrow> for_each_email env rest s')"

text \<open>The undecorated \<open>main\<close>.\<close>

definition main :: "env \<Rightarrow> unit comp" where
  "main env =
     bind (search_gmail env) (\<lambda>msg_ids.
       if msg_ids = [] then (\<lambda>s. (Inr (), s))
       else bind (read_email env msg_ids) (\<lambda>content.
         if content = [] then (\<lambda>s. (Inr (), s))
         else for_each_email env content))"

section \<open>llm\_func.py: the scheduling decorator\<close>

text \<open>
  What \<open>agent_runner\<close> does around the wrapped function, in order: the attempts,
  the calls of \<open>time.sleep\<close> with their seconds, and the two log lines that
  report the outcome of a cycle.
\<close>

datatype sched_event =
    Attempt nat
  | AttemptFailed nat
  | Completed
  | AllFailed
  | Sleep nat

text \<open>
  The loop \<open>for attempt in range(1, 4)\<close>, for any wrapped function \<open>func\<close> over
  any state: it stops at the first attempt that returns.
\<close>

fun attempts ::
    "('s \<Rightarrow> (exn + 'a) \<times> 's) \<Rightarrow> nat list \<Rightarrow> 's \<Rightarrow> sched_event list
      \<Rightarrow> bool \<times> 's \<times> sched_event list" where
  "attempts func [] s lg = (False, s, lg)"
| "attempts func (attempt # rest) s lg =
     (case func s of
        (Inr _, s') \<Rightarrow> (True, s', lg @ [Attempt attempt, Completed])
      | (Inl e, s') \<Rightarrow>
          attempts func rest s'
            (lg @ [Attempt attempt, AttemptFailed attempt]
                @ (if attempt < 3 then [Sleep 10] else [])))"

text \<open>One turn of the \<open>while True\<close> loop.\<close>

definition cycle ::
    "('s \<Rightarrow> (exn + 'a) \<times> 's) \<Rightarrow> 's \<Rightarrow> bool \<times> 's \<times> sched_event list" where
  "cycle func s =
     (case attempts func [1..<4] s [] of
        (success, s', lg) \<Rightarrow>
          (success, s', lg @ (if \<not> success then [AllFailed] else []) @ [Sleep 3600]))"

text \<open>
  The \<open>while True\<close> loop never ends by itself; \<open>wrapper n\<close> is its first \<open>n\<close>
  turns.
\<close>

fun wrapper ::
    "nat \<Rightarrow> ('s \<Rightarrow> (exn + 'a) \<times> 's) \<Rightarrow> 's \<Rightarrow> 's \<times> sched_event list" where
  "wrapper 0 func s = (s, [])"
| "wrapper (Suc n) func s =
     (case cycle func s of
        (success, s', lg) \<Rightarrow>
          (case wrapper n func s' of (s'', lg') \<Rightarrow> (s'', lg @ lg')))"

section \<open>Observations used to state the properties\<close>

text \<open>The store that a call of the tabular store collaborator addresses.\<close>

fun sheet_of :: "sheets_call \<Rightarrow> string" where
  "sheet_of (Open n) = n"
| "sheet_of (Create n) = n"
| "sheet_of (Share n who role) = n"
| "sheet_of (Sheet1 n) = n"
| "sheet_of (AppendRow n r) = n"

text \<open>All of these events are calls of the tabular store collaborator on one store.\<close>

definition on_sheet :: "string \<Rightarrow> event list \<Rightarrow> bool" where
  "on_sheet f evs = (\<forall>ev\<in>set evs. \<exists>c. ev = Sheets c \<and> sheet_of c = f)"

fun is_classify :: "event \<Rightarrow> bool" where
  "is_classify (Classify a b) = True"
| "is_classify _ = False"

fun is_extract :: "event \<Rightarrow> bool" where
  "is_extract (Extract a b) = True"
| "is_extract _ = False"

fun is_sheets :: "event \<Rightarrow> bool" where
  "is_sheets (Sheets c) = True"
| "is_sheets _ = False"

text \<open>None of these events is a call of the classifier, the extractor or the tabular store.\<close>

definition no_llm_or_sheets :: "event list \<Rightarrow> bool" where
  "no_llm_or_sheets evs =
     (\<forall>ev\<in>set evs. \<not> is_classify ev \<and> \<not> is_extract ev \<and> \<not> is_sheets ev)"


text \<open>
  A store gained no record: it is as before, or it did not exist and was
  created with no row or with the header row only.
\<close>

definition no_record_added :: "row \<Rightarrow> row list option \<Rightarrow> row list option \<Rightarrow> bool" where
  "no_record_added headers before after =
     (after = before \<or> (before = None \<and> (after = Some [] \<or> after = Some [headers])))"








text \<open>
  The ways one turn of the scheduling loop can go: success at the first, second
  or third attempt, or three failed attempts; a 10-second sleep stands between two
  attempts and nowhere else, and the 3600-second sleep ends the turn.
\<close>

fun is_attempt :: "sched_event \<Rightarrow> bool" where
  "is_attempt (Attempt n) = True"
| "is_attempt _ = False"

definition cycle_ok :: "bool \<times> 's \<times> sched_event list \<Rightarrow> bool" where
  "cycle_ok r =
     (case r of
      (success, s', lg) \<Rightarrow>
        ((success \<and>
           (lg = [Attempt 1, Completed, Sleep 3600] \<or>
            lg = [Attempt 1, AttemptFailed 1, Sleep 10, Attempt 2, Completed, Sleep 3600] \<or>
            lg = [Attempt 1, AttemptFailed 1, Sleep 10, Attempt 2, AttemptFailed 2, Sleep 10,
                  Attempt 3, Completed, Sleep 3600])) \<or>
         (\<not> success \<and>
            lg = [Attempt 1, AttemptFailed 1, Sleep 10, Attempt 2, AttemptFailed 2, Sleep 10,
                  Attempt 3, AttemptFailed 3, AllFailed, Sleep 3600])) \<and>
        length (filter is_attempt lg) \<le> 3 \<and>
        count_list lg (Sleep 10) = length (filter is_attempt lg) - 1 \<and>
        count_list lg (Sleep 3600) = 1 \<and> last lg = Sleep 3600)"

section \<open>Concrete inputs\<close>

definition mail :: "string \<Rightarrow> email_data" where
  "mail i =
     \<lparr>msg_id = i, sender = ''jane@example.com'', subject = ''application'',
      body = ''Please find my resume attached.'',
      attachments = [\<lparr>filename = ''resume.pdf'', attachment_id = Some ''a1''\<rparr>]\<rparr>"

definition good_validation :: ResumeValidation where
  "good_validation =
     \<lparr>is_resume = True, confidence = High, document_type = ''resume'',
      reason = ''Lists contact details, experience and skills.''\<rparr>"

definition invoice_validation :: ResumeValidation where
  "invoice_validation =
     \<lparr>is_resume = False, confidence = High, document_type = ''invoice'',
      reason = ''Lists billed services and a total.''\<rparr>"

definition jane :: Interns where
  "jane =
     \<lparr>name = ''Jane Roe'', email = ''jane@example.com'', phone = ''N/A'',
      skills = [''Python'', ''SQL''], exp = ''2 years'', status = New,
      summary = ''Python developer.'', question = ''Which systems have you run in production?''\<rparr>"

definition jane_row :: row where
  "jane_row =
     [S ''Jane Roe'', S ''jane@example.com'', S ''N/A'', S ''Python, SQL'', S ''2 years'',
      S ''New'', S ''Python developer.'', S ''Which systems have you run in production?'']"

definition env0 :: env where
  "env0 =
     \<lparr>gmail_search_tool = (\<lambda>h q. Inr [''m1'']),
      gmail_get_message = (\<lambda>h i. Inr (mail i)),
      os_makedirs = (\<lambda>h p. None),
      os_path_join = (\<lambda>a b. a @ ''/'' @ b),
      attachment_get = (\<lambda>h i a. Inr ''%PDF-1.4''),
      file_write = (\<lambda>h p d. None),
      pdf_reader = (\<lambda>h p. Inr [Inr ''Jane  Roe'', Inr ''Python developer'']),
      classifier = (\<lambda>h e p. Inr good_validation),
      extractor = (\<lambda>h e p. Inr jane),
      sheets_fault = (\<lambda>h c. None),
      now = (\<lambda>h. ''2024-01-15 10:00:00'')\<rparr>"

definition world0 :: world where
  "world0 = \<lparr>sheets = Map.empty, trace = []\<rparr>"

definition env_search_down :: env where
  "env_search_down = env0\<lparr>gmail_search_tool := (\<lambda>h q. Inl (APIError ''mailbox unavailable''))\<rparr>"

definition env_classifier_down :: env where
  "env_classifier_down = env0\<lparr>classifier := (\<lambda>h e p. Inl (APIError ''timeout''))\<rparr>"

definition env_invoice :: env where
  "env_invoice = env0\<lparr>classifier := (\<lambda>h e p. Inr invoice_validation)\<rparr>"

definition env_error_text :: env where
  "env_error_text = env0\<lparr>pdf_reader := (\<lambda>h p. Inr [Inr ''Error  analysis engineer Jane Roe''])\<rparr>"

definition env_second_fails :: env where
  "env_second_fails =
     env0\<lparr>attachment_get :=
       (\<lambda>h i a. if i = ''m2'' then Inl (APIError ''attachment unavailable'') else Inr ''%PDF-1.4'')\<rparr>"

definition env_no_file :: env where
  "env_no_file = env0\<lparr>pdf_reader := (\<lambda>h p. Inl (FileNotFoundError ''No such file or directory''))\<rparr>"

text \<open>A file that is no PDF, and a PDF whose second page cannot be read.\<close>

definition env_corrupt_pdf :: env where
  "env_corrupt_pdf = env0\<lparr>pdf_reader := (\<lambda>h p. Inl (OtherError ''EOF marker not found''))\<rparr>"

definition env_bad_page :: env where
  "env_bad_page =
     env0\<lparr>pdf_reader :=
       (\<lambda>h p. Inr [Inr ''Jane  Roe'', Inl (OtherError ''stream has ended unexpectedly''),
                  Inr ''Python developer''])\<rparr>"

definition env_sheets_down :: env where
  "env_sheets_down = env0\<lparr>sheets_fault := (\<lambda>h c. Some ''quota exceeded'')\<rparr>"

text \<open>The world after the first email's attachment was downloaded and read.\<close>

definition after_read :: world where
  "after_read =
     \<lparr>sheets = Map.empty,
      trace = [MakeDirs downloads_dir, AttachmentGet ''m1'' (Some ''a1''),
               FileWrite (downloads_dir @ ''/resume.pdf''),
               PdfRead (downloads_dir @ ''/resume.pdf'')]\<rparr>"

text \<open>A wrapped function that fails twice and then returns; its state counts the calls.\<close>

definition flaky :: "nat \<Rightarrow> (exn + unit) \<times> nat" where
  "flaky n = (if n < 2 then (Inl (OtherError ''not yet''), Suc n) else (Inr (), Suc n))"

section \<open>Basic facts\<close>

lemma trace_call [simp]: "trace (call ev s) = trace s @ [ev]"
  by (simp add: call_def)

lemma sheets_call [simp]: "sheets (call ev s) = sheets s"
  by (simp add: call_def)

lemma new_events_append: "trace s' = trace s @ evs \<Longrightarrow> new_events s s' = evs"
  by (simp add: new_events_def)

lemma new_events_self [simp]: "new_events s s = []"
  by (simp add: new_events_def)

section \<open>The classifier's failures are conservative rejects\<close>

lemma validate_resume_cases:
  "validate_resume env pdf_text email_body s =
     (Inr (case classifier env (trace s) (take 500 email_body)
                  (if length pdf_text > 1000 then take 1000 pdf_text else pdf_text) of
             Inr result \<Rightarrow> result
           | Inl e \<Rightarrow> \<lparr>is_resume = False, confidence = Low, document_type = ''unknown'',
                reason = ''Validation error: '' @ exn_str e\<rparr>),
      call (Classify (take 500 email_body)
             (if length pdf_text > 1000 then take 1000 pdf_text else pdf_text)) s)"
  by (simp add: validate_resume_def Let_def split: sum.split)

text \<open>
  C4. \<open>validate_resume\<close> never raises; when the classifier invocation raises an
  exception \<open>e\<close>, it returns the validation with \<open>is_resume = False\<close> and
  \<open>confidence = 'low'\<close> (document type \<open>unknown\<close>, the reason naming \<open>e\<close>).
\<close>

theorem validate_resume_safe_reject:
  "(\<exists>v s'. validate_resume env pdf_text email_body s = (Inr v, s')) \<and>
   (classifier env (trace s) (take 500 email_body)
      (if length pdf_text > 1000 then take 1000 pdf_text else pdf_text) = Inl e \<longrightarrow>
    (\<exists>s'. validate_resume env pdf_text email_body s =
       (Inr \<lparr>is_resume = False, confidence = Low, document_type = ''unknown'',
             reason = ''Validation error: '' @ exn_str e\<rparr>, s')))"
  by (simp add: validate_resume_cases)

theorem validate_resume_safe_reject_witness:
  "classifier env_classifier_down (trace world0) (take 500 ''Please find my resume attached.'')
      (if length ''Jane Roe Python developer'' > 1000 then take 1000 ''Jane Roe Python developer''
       else ''Jane Roe Python developer'') = Inl (APIError ''timeout'') \<and>
   (\<exists>s'. validate_resume env_classifier_down ''Jane Roe Python developer''
       ''Please find my resume attached.'' world0 =
       (Inr \<lparr>is_resume = False, confidence = Low, document_type = ''unknown'',
             reason = ''Validation error: timeout''\<rparr>, s'))"
  using validate_resume_safe_reject [of env_classifier_down "''Jane Roe Python developer''"
      "''Please find my resume attached.''" world0 "APIError ''timeout''"]
  by (simp add: env_classifier_down_def env0_def)

section \<open>PDF text extraction never raises\<close>

lemma py_split_clean:
  "\<forall>c\<in>set w. \<not> isspace c \<Longrightarrow> x \<in> set (py_split s w) \<Longrightarrow> x \<noteq> [] \<and> (\<forall>c\<in>set x. \<not> isspace c)"
proof (induction s arbitrary: w)
  case Nil
  then show ?case by (simp split: if_splits)
next
  case (Cons c cs)
  show ?case
  proof (cases "isspace c")
    case True
    note sp = this
    show ?thesis
    proof (cases "w = []")
      case True
      with sp Cons.prems have "x \<in> set (py_split cs [])" by simp
      then show ?thesis using Cons.IH [of "[]"] by simp
    next
      case False
      with sp Cons.prems have "x = w \<or> x \<in> set (py_split cs [])" by simp
      then show ?thesis using Cons.IH [of "[]"] Cons.prems(1) False by auto
    qed
  next
    case False
    with Cons.prems have "x \<in> set (py_split cs (w @ [c]))" by simp
    moreover have "\<forall>d\<in>set (w @ [c]). \<not> isspace d" using False Cons.prems(1) by simp
    ultimately show ?thesis using Cons.IH [of "w @ [c]"] by blast
  qed
qed

lemma isspace_space: "isspace (CHR '' '')"
  by (simp add: isspace_def)

lemma py_split_word:
  "\<forall>c\<in>set x. \<not> isspace c \<Longrightarrow> py_split (x @ rest) w = py_split rest (w @ x)"
  by (induction x arbitrary: w) simp_all

lemma split_ws_join:
  "\<forall>x\<in>set ws. x \<noteq> [] \<and> (\<forall>c\<in>set x. \<not> isspace c) \<Longrightarrow> split_ws (join '' '' ws) = ws"
proof (induction "'' ''" ws rule: join.induct)
  case 1
  then show ?case by (simp add: split_ws_def)
next
  case (2 x)
  then show ?case using py_split_word [of x "[]" "[]"] by (simp add: split_ws_def)
next
  case (3 x y ys)
  have "py_split (x @ '' '' @ join '' '' (y # ys)) [] = py_split ('' '' @ join '' '' (y # ys)) x"
    using 3 py_split_word [of x "'' '' @ join '' '' (y # ys)" "[]"] by simp
  also have "\<dots> = x # py_split (join '' '' (y # ys)) []"
    using 3 isspace_space by simp
  finally show ?case using 3 by (simp add: split_ws_def)
qed

lemma split_ws_words:
  "x \<in> set (split_ws s) \<Longrightarrow> x \<noteq> [] \<and> (\<forall>c\<in>set x. \<not> isspace c)"
  unfolding split_ws_def using py_split_clean [of "[]" x s] by simp

lemma split_ws_normalised: "split_ws (join '' '' (split_ws s)) = split_ws s"
  by (rule split_ws_join) (use split_ws_words in blast)

lemma read_pages_all:
  "read_pages (map Inr texts) acc = Inr (acc @ concat (map (\<lambda>t. t @ [CHR 0x0A]) texts))"
  by (induction texts arbitrary: acc) simp_all

lemma startswith_marker_not_found: "startswith (''Error: PDF file not found at '' @ p) ''Error''"
  by (simp add: startswith_def)

lemma startswith_marker_reading: "startswith (''Error reading PDF: '' @ m) ''Error''"
  by (simp add: startswith_def)

lemma pdf_try_block_state: "snd (pdf_try_block env pdf_path s) = call (PdfRead pdf_path) s"
  by (simp add: pdf_try_block_def Let_def split: sum.split)

lemma extract_text_from_pdf_cases:
  "extract_text_from_pdf env pdf_path s =
     (Inr (case fst (pdf_try_block env pdf_path s) of
             Inr clean_text \<Rightarrow> clean_text
           | Inl (FileNotFoundError m) \<Rightarrow> ''Error: PDF file not found at '' @ pdf_path
           | Inl e \<Rightarrow> ''Error reading PDF: '' @ exn_str e),
      call (PdfRead pdf_path) s)"
  using pdf_try_block_state [of env pdf_path s]
  by (cases "pdf_try_block env pdf_path s")
     (simp add: extract_text_from_pdf_def split: sum.split exn.split)

lemma read_pages_raises:
  "read_pages (map Inr texts @ Inl e # rest) acc = Inl e"
  by (induction texts arbitrary: acc) simp_all

lemma pages_shape:
  "(\<exists>texts. pages = map Inr texts) \<or> (\<exists>texts e rest. pages = map Inr texts @ Inl e # rest)"
proof (induction pages)
  case Nil
  then show ?case by simp
next
  case (Cons p ps)
  show ?case
  proof (cases p)
    case (Inl e)
    then have "p # ps = map Inr [] @ Inl e # ps" by simp
    then show ?thesis by (intro disjI2 exI)
  next
    case (Inr t)
    from Cons show ?thesis
    proof
      assume "\<exists>texts. ps = map Inr texts"
      then obtain texts where "ps = map Inr texts" ..
      with Inr have "p # ps = map Inr (t # texts)" by simp
      then show ?thesis by (intro disjI1 exI)
    next
      assume "\<exists>texts e rest. ps = map Inr texts @ Inl e # rest"
      then obtain texts e rest where "ps = map Inr texts @ Inl e # rest" by blast
      with Inr have "p # ps = map Inr (t # texts) @ Inl e # rest" by simp
      then show ?thesis by (intro disjI2 exI)
    qed
  qed
qed

text \<open>
  C9. For every path, \<open>extract_text_from_pdf\<close> returns a string and never raises.
  When the reader gives the pages and every page gives its text, the string is
  the text of all pages, each followed by a newline, split at whitespace and
  joined with single spaces: its words are non-empty and free of whitespace, and
  splitting it again gives the same words. When the file cannot be read, that
  is, when the reader raises or when a page raises after any number of readable
  pages, the string is the failure marker, which starts with \<open>Error\<close>: the
  one for a missing file, or the one carrying the exception's text. One of
  these cases always applies.
\<close>

theorem extract_text_from_pdf_never_raises:
  "\<exists>t. extract_text_from_pdf env pdf_path s = (Inr t, call (PdfRead pdf_path) s) \<and>
     (\<forall>texts. pdf_reader env (trace s) pdf_path = Inr (map Inr texts) \<longrightarrow>
        t = join '' '' (split_ws (concat (map (\<lambda>p. p @ [CHR 0x0A]) texts))) \<and>
        (\<forall>w\<in>set (split_ws (concat (map (\<lambda>p. p @ [CHR 0x0A]) texts))).
           w \<noteq> [] \<and> (\<forall>c\<in>set w. \<not> isspace c)) \<and>
        split_ws t = split_ws (concat (map (\<lambda>p. p @ [CHR 0x0A]) texts))) \<and>
     (\<forall>e. pdf_reader env (trace s) pdf_path = Inl e \<or>
          (\<exists>texts rest. pdf_reader env (trace s) pdf_path = Inr (map Inr texts @ Inl e # rest)) \<longrightarrow>
        startswith t ''Error'' \<and>
        t = (case e of
               FileNotFoundError m \<Rightarrow> ''Error: PDF file not found at '' @ pdf_path
             | _ \<Rightarrow> ''Error reading PDF: '' @ exn_str e)) \<and>
     ((\<exists>texts. pdf_reader env (trace s) pdf_path = Inr (map Inr texts)) \<or>
      (\<exists>e. pdf_reader env (trace s) pdf_path = Inl e \<or>
          (\<exists>texts rest. pdf_reader env (trace s) pdf_path = Inr (map Inr texts @ Inl e # rest))))"
proof -
  let ?t = "case fst (pdf_try_block env pdf_path s) of
             Inr clean_text \<Rightarrow> clean_text
           | Inl (FileNotFoundError m) \<Rightarrow> ''Error: PDF file not found at '' @ pdf_path
           | Inl e \<Rightarrow> ''Error reading PDF: '' @ exn_str e"
  have a: "extract_text_from_pdf env pdf_path s = (Inr ?t, call (PdfRead pdf_path) s)"
    by (rule extract_text_from_pdf_cases)
  have b: "?t = join '' '' (split_ws (concat (map (\<lambda>p. p @ [CHR 0x0A]) texts)))"
    if "pdf_reader env (trace s) pdf_path = Inr (map Inr texts)" for texts
    using that by (simp add: pdf_try_block_def Let_def read_pages_all)
  have raised: "fst (pdf_try_block env pdf_path s) = Inl e"
    if "pdf_reader env (trace s) pdf_path = Inl e \<or>
          (\<exists>texts rest. pdf_reader env (trace s) pdf_path = Inr (map Inr texts @ Inl e # rest))"
    for e
    using that
  proof
    assume "pdf_reader env (trace s) pdf_path = Inl e"
    then show ?thesis by (simp add: pdf_try_block_def Let_def)
  next
    assume "\<exists>texts rest. pdf_reader env (trace s) pdf_path = Inr (map Inr texts @ Inl e # rest)"
    then obtain texts rest
      where "pdf_reader env (trace s) pdf_path = Inr (map Inr texts @ Inl e # rest)" by blast
    then show ?thesis by (simp add: pdf_try_block_def Let_def read_pages_raises)
  qed
  have c: "startswith ?t ''Error'' \<and>
        ?t = (case e of
               FileNotFoundError m \<Rightarrow> ''Error: PDF file not found at '' @ pdf_path
             | _ \<Rightarrow> ''Error reading PDF: '' @ exn_str e)"
    if "fst (pdf_try_block env pdf_path s) = Inl e" for e
    using that startswith_marker_not_found startswith_marker_reading
    by (cases e) simp_all
  have d: "(\<exists>texts. pdf_reader env (trace s) pdf_path = Inr (map Inr texts)) \<or>
      (\<exists>e. pdf_reader env (trace s) pdf_path = Inl e \<or>
          (\<exists>texts rest. pdf_reader env (trace s) pdf_path = Inr (map Inr texts @ Inl e # rest)))"
  proof (cases "pdf_reader env (trace s) pdf_path")
    case (Inl e)
    then show ?thesis by blast
  next
    case (Inr pages)
    with pages_shape [of pages] show ?thesis by blast
  qed
  show ?thesis
  proof (intro exI conjI allI impI)
    show "extract_text_from_pdf env pdf_path s = (Inr ?t, call (PdfRead pdf_path) s)" by (rule a)
  next
    fix texts assume "pdf_reader env (trace s) pdf_path = Inr (map Inr texts)"
    then show "?t = join '' '' (split_ws (concat (map (\<lambda>p. p @ [CHR 0x0A]) texts)))" by (rule b)
  next
    fix texts assume "pdf_reader env (trace s) pdf_path = Inr (map Inr texts)"
    show "\<forall>w\<in>set (split_ws (concat (map (\<lambda>p. p @ [CHR 0x0A]) texts))).
           w \<noteq> [] \<and> (\<forall>c\<in>set w. \<not> isspace c)"
      using split_ws_words by blast
  next
    fix texts assume "pdf_reader env (trace s) pdf_path = Inr (map Inr texts)"
    then show "split_ws ?t = split_ws (concat (map (\<lambda>p. p @ [CHR 0x0A]) texts))"
      using b split_ws_normalised by simp
  next
    fix e assume "pdf_reader env (trace s) pdf_path = Inl e \<or>
          (\<exists>texts rest. pdf_reader env (trace s) pdf_path = Inr (map Inr texts @ Inl e # rest))"
    then have "fst (pdf_try_block env pdf_path s) = Inl e" by (rule raised)
    then show "startswith ?t ''Error''" using c by blast
  next
    fix e assume "pdf_reader env (trace s) pdf_path = Inl e \<or>
          (\<exists>texts rest. pdf_reader env (trace s) pdf_path = Inr (map Inr texts @ Inl e # rest))"
    then have "fst (pdf_try_block env pdf_path s) = Inl e" by (rule raised)
    then show "?t = (case e of
               FileNotFoundError m \<Rightarrow> ''Error: PDF file not found at '' @ pdf_path
             | _ \<Rightarrow> ''Error reading PDF: '' @ exn_str e)" using c by blast
  next
    show "(\<exists>texts. pdf_reader env (trace s) pdf_path = Inr (map Inr texts)) \<or>
      (\<exists>e. pdf_reader env (trace s) pdf_path = Inl e \<or>
          (\<exists>texts rest. pdf_reader env (trace s) pdf_path = Inr (map Inr texts @ Inl e # rest)))"
      by (rule d)
  qed
qed

theorem extract_text_from_pdf_never_raises_witness:
  "pdf_reader env0 (trace world0) ''resume.pdf'' = Inr (map Inr [''Jane  Roe'', ''Python developer'']) \<and>
   extract_text_from_pdf env0 ''resume.pdf'' world0 =
     (Inr ''Jane Roe Python developer'', call (PdfRead ''resume.pdf'') world0) \<and>
   pdf_reader env_no_file (trace world0) ''gone.pdf'' =
     Inl (FileNotFoundError ''No such file or directory'') \<and>
   extract_text_from_pdf env_no_file ''gone.pdf'' world0 =
     (Inr ''Error: PDF file not found at gone.pdf'', call (PdfRead ''gone.pdf'') world0) \<and>
   pdf_reader env_corrupt_pdf (trace world0) ''notes.pdf'' = Inl (OtherError ''EOF marker not found'') \<and>
   extract_text_from_pdf env_corrupt_pdf ''notes.pdf'' world0 =
     (Inr ''Error reading PDF: EOF marker not found'', call (PdfRead ''notes.pdf'') world0) \<and>
   pdf_reader env_bad_page (trace world0) ''scan.pdf'' =
     Inr (map Inr [''Jane  Roe''] @ Inl (OtherError ''stream has ended unexpectedly'') #
          [Inr ''Python developer'']) \<and>
   extract_text_from_pdf env_bad_page ''scan.pdf'' world0 =
     (Inr ''Error reading PDF: stream has ended unexpectedly'', call (PdfRead ''scan.pdf'') world0)"
proof -
  have r: "pdf_reader env0 (trace world0) ''resume.pdf'' =
      Inr (map Inr [''Jane  Roe'', ''Python developer''])"
    by (simp add: env0_def)
  from extract_text_from_pdf_never_raises [of env0 "''resume.pdf''" world0]
  obtain t where t: "extract_text_from_pdf env0 ''resume.pdf'' world0 =
        (Inr t, call (PdfRead ''resume.pdf'') world0)"
    and ok: "\<forall>texts. pdf_reader env0 (trace world0) ''resume.pdf'' = Inr (map Inr texts) \<longrightarrow>
        t = join '' '' (split_ws (concat (map (\<lambda>p. p @ [CHR 0x0A]) texts))) \<and>
        (\<forall>w\<in>set (split_ws (concat (map (\<lambda>p. p @ [CHR 0x0A]) texts))).
           w \<noteq> [] \<and> (\<forall>c\<in>set w. \<not> isspace c)) \<and>
        split_ws t = split_ws (concat (map (\<lambda>p. p @ [CHR 0x0A]) texts))"
    by (elim exE conjE) (rule that)
  from ok [THEN spec, THEN mp, OF r, THEN conjunct1]
  have t_val: "t = ''Jane Roe Python developer''"
    by (simp add: split_ws_def isspace_def)
  from t have t': "extract_text_from_pdf env0 ''resume.pdf'' world0 =
     (Inr ''Jane Roe Python developer'', call (PdfRead ''resume.pdf'') world0)"
    unfolding t_val .
  have f: "pdf_reader env_no_file (trace world0) ''gone.pdf'' =
      Inl (FileNotFoundError ''No such file or directory'')"
    by (simp add: env_no_file_def env0_def)
  from extract_text_from_pdf_never_raises [of env_no_file "''gone.pdf''" world0]
  obtain u where u: "extract_text_from_pdf env_no_file ''gone.pdf'' world0 =
        (Inr u, call (PdfRead ''gone.pdf'') world0)"
    and bad: "\<forall>e. pdf_reader env_no_file (trace world0) ''gone.pdf'' = Inl e \<or>
          (\<exists>texts rest. pdf_reader env_no_file (trace world0) ''gone.pdf'' =
             Inr (map Inr texts @ Inl e # rest)) \<longrightarrow>
        startswith u ''Error'' \<and>
        u = (case e of
               FileNotFoundError m \<Rightarrow> ''Error: PDF file not found at '' @ ''gone.pdf''
             | _ \<Rightarrow> ''Error reading PDF: '' @ exn_str e)"
    by (elim exE conjE) (rule that)
  from bad [THEN spec, THEN mp, OF disjI1, OF f, THEN conjunct2]
  have u_val: "u = ''Error: PDF file not found at gone.pdf''" by simp
  from u have u': "extract_text_from_pdf env_no_file ''gone.pdf'' world0 =
     (Inr ''Error: PDF file not found at gone.pdf'', call (PdfRead ''gone.pdf'') world0)"
    unfolding u_val .
  have g: "pdf_reader env_corrupt_pdf (trace world0) ''notes.pdf'' =
      Inl (OtherError ''EOF marker not found'')"
    by (simp add: env_corrupt_pdf_def env0_def)
  from extract_text_from_pdf_never_raises [of env_corrupt_pdf "''notes.pdf''" world0]
  obtain v where v: "extract_text_from_pdf env_corrupt_pdf ''notes.pdf'' world0 =
        (Inr v, call (PdfRead ''notes.pdf'') world0)"
    and corrupt: "\<forall>e. pdf_reader env_corrupt_pdf (trace world0) ''notes.pdf'' = Inl e \<or>
          (\<exists>texts rest. pdf_reader env_corrupt_pdf (trace world0) ''notes.pdf'' =
             Inr (map Inr texts @ Inl e # rest)) \<longrightarrow>
        startswith v ''Error'' \<and>
        v = (case e of
               FileNotFoundError m \<Rightarrow> ''Error: PDF file not found at '' @ ''notes.pdf''
             | _ \<Rightarrow> ''Error reading PDF: '' @ exn_str e)"
    by (elim exE conjE) (rule that)
  from corrupt [THEN spec, THEN mp, OF disjI1, OF g, THEN conjunct2]
  have v_val: "v = ''Error reading PDF: EOF marker not found''" by simp
  from v have v': "extract_text_from_pdf env_corrupt_pdf ''notes.pdf'' world0 =
     (Inr ''Error reading PDF: EOF marker not found'', call (PdfRead ''notes.pdf'') world0)"
    unfolding v_val .
  have h: "pdf_reader env_bad_page (trace world0) ''scan.pdf'' =
      Inr (map Inr [''Jane  Roe''] @ Inl (OtherError ''stream has ended unexpectedly'') #
           [Inr ''Python developer''])"
    by (simp add: env_bad_page_def env0_def)
  have hx: "\<exists>texts rest. pdf_reader env_bad_page (trace world0) ''scan.pdf'' =
      Inr (map Inr texts @ Inl (OtherError ''stream has ended unexpectedly'') # rest)"
    by (rule exI [where x = "[''Jane  Roe'']"], rule exI [where x = "[Inr ''Python developer'']"])
       (rule h)
  from extract_text_from_pdf_never_raises [of env_bad_page "''scan.pdf''" world0]
  obtain x where x: "extract_text_from_pdf env_bad_page ''scan.pdf'' world0 =
        (Inr x, call (PdfRead ''scan.pdf'') world0)"
    and page: "\<forall>e. pdf_reader env_bad_page (trace world0) ''scan.pdf'' = Inl e \<or>
          (\<exists>texts rest. pdf_reader env_bad_page (trace world0) ''scan.pdf'' =
             Inr (map Inr texts @ Inl e # rest)) \<longrightarrow>
        startswith x ''Error'' \<and>
        x = (case e of
               FileNotFoundError m \<Rightarrow> ''Error: PDF file not found at '' @ ''scan.pdf''
             | _ \<Rightarrow> ''Error reading PDF: '' @ exn_str e)"
    by (elim exE conjE) (rule that)
  from page [THEN spec, THEN mp, OF disjI2, OF hx, THEN conjunct2]
  have x_val: "x = ''Error reading PDF: stream has ended unexpectedly''" by simp
  from x have x': "extract_text_from_pdf env_bad_page ''scan.pdf'' world0 =
     (Inr ''Error reading PDF: stream has ended unexpectedly'', call (PdfRead ''scan.pdf'') world0)"
    unfolding x_val .
  show ?thesis by (intro conjI r t' f u' g v' h x')
qed

section \<open>The scheduling loop\<close>

lemma range_1_4: "[1..<4] = [1, 2, 3]"
  by (simp add: upt_rec)

lemma cycle_first:
  "func s = (Inr v, s1) \<Longrightarrow> cycle func s = (True, s1, [Attempt 1, Completed, Sleep 3600])"
  unfolding cycle_def range_1_4 by simp

lemma cycle_second:
  "func s = (Inl e1, s1) \<Longrightarrow> func s1 = (Inr v, s2) \<Longrightarrow>
   cycle func s =
     (True, s2, [Attempt 1, AttemptFailed 1, Sleep 10, Attempt 2, Completed, Sleep 3600])"
  unfolding cycle_def range_1_4 by simp

lemma cycle_third:
  "func s = (Inl e1, s1) \<Longrightarrow> func s1 = (Inl e2, s2) \<Longrightarrow> func s2 = (Inr v, s3) \<Longrightarrow>
   cycle func s =
     (True, s3, [Attempt 1, AttemptFailed 1, Sleep 10, Attempt 2, AttemptFailed 2, Sleep 10,
                 Attempt 3, Completed, Sleep 3600])"
  unfolding cycle_def range_1_4 by simp

lemma cycle_exhausted:
  "func s = (Inl e1, s1) \<Longrightarrow> func s1 = (Inl e2, s2) \<Longrightarrow> func s2 = (Inl e3, s3) \<Longrightarrow>
   cycle func s =
     (False, s3, [Attempt 1, AttemptFailed 1, Sleep 10, Attempt 2, AttemptFailed 2, Sleep 10,
                  Attempt 3, AttemptFailed 3, AllFailed, Sleep 3600])"
  unfolding cycle_def range_1_4 by simp

lemma cycle_shapes: "cycle_ok (cycle func s)"
proof (cases "func s")
  case (Pair r1 s1)
  note p1 = this
  show ?thesis
  proof (cases r1)
    case (Inr v)
    with p1 have "cycle func s = (True, s1, [Attempt 1, Completed, Sleep 3600])"
      using cycle_first [of func s v s1] by simp
    then show ?thesis by (simp add: cycle_ok_def)
  next
    case (Inl e1)
    note r1 = this
    show ?thesis
    proof (cases "func s1")
      case (Pair r2 s2)
      note p2 = this
      show ?thesis
      proof (cases r2)
        case (Inr v)
        with p1 r1 p2 have "cycle func s =
            (True, s2, [Attempt 1, AttemptFailed 1, Sleep 10, Attempt 2, Completed, Sleep 3600])"
          using cycle_second [of func s e1 s1 v s2] by simp
        then show ?thesis by (simp add: cycle_ok_def)
      next
        case (Inl e2)
        note r2 = this
        show ?thesis
        proof (cases "func s2")
          case (Pair r3 s3)
          show ?thesis
          proof (cases r3)
            case (Inr v)
            with p1 r1 p2 r2 Pair have "cycle func s =
              (True, s3, [Attempt 1, AttemptFailed 1, Sleep 10, Attempt 2, AttemptFailed 2,
                          Sleep 10, Attempt 3, Completed, Sleep 3600])"
              using cycle_third [of func s e1 s1 e2 s2 v s3] by simp
            then show ?thesis by (simp add: cycle_ok_def)
          next
            case (Inl e3)
            with p1 r1 p2 r2 Pair have "cycle func s =
              (False, s3, [Attempt 1, AttemptFailed 1, Sleep 10, Attempt 2, AttemptFailed 2,
                           Sleep 10, Attempt 3, AttemptFailed 3, AllFailed, Sleep 3600])"
              using cycle_exhausted [of func s e1 s1 e2 s2 e3 s3] by simp
            then show ?thesis by (simp add: cycle_ok_def)
          qed
        qed
      qed
    qed
  qed
qed

text \<open>
  C8. In every turn of the scheduling loop the wrapped function is attempted at
  most three times; a 10-second sleep happens after a failed first or second
  attempt and never after the third; the turn ends with one 3600-second sleep
  whatever the outcome. When the function fails at attempts 1 and 2 and returns
  at attempt 3, there are exactly two 10-second sleeps and the turn reports
  success.
\<close>

theorem agent_runner_cycle:
  "cycle_ok (cycle func s) \<and>
   (func s = (Inl e1, s1) \<and> func s1 = (Inl e2, s2) \<and> func s2 = (Inr v, s3) \<longrightarrow>
      cycle func s =
        (True, s3, [Attempt 1, AttemptFailed 1, Sleep 10, Attempt 2, AttemptFailed 2, Sleep 10,
                    Attempt 3, Completed, Sleep 3600]) \<and>
      count_list (snd (snd (cycle func s))) (Sleep 10) = 2)"
  using cycle_shapes [of func s] cycle_third [of func s e1 s1 e2 s2 v s3] by simp

theorem agent_runner_cycle_witness:
  "flaky 0 = (Inl (OtherError ''not yet''), 1) \<and> flaky 1 = (Inl (OtherError ''not yet''), 2) \<and>
   flaky 2 = (Inr (), 3) \<and>
   cycle flaky 0 =
     (True, 3, [Attempt 1, AttemptFailed 1, Sleep 10, Attempt 2, AttemptFailed 2, Sleep 10,
                Attempt 3, Completed, Sleep 3600]) \<and>
   count_list (snd (snd (cycle flaky 0))) (Sleep 10) = 2"
  using agent_runner_cycle [of flaky 0 "OtherError ''not yet''" 1 "OtherError ''not yet''" 2 "()" 3]
  by (simp add: flaky_def)


section \<open>Evaluation of the model on concrete inputs\<close>

lemmas model_defs =
  process_email_def validate_and_route_def extract_llm_def extract_candidate_def
  validate_resume_def save_pdf_def extract_text_from_pdf_def pdf_try_block_def
  save_to_sheets_def save_rejected_to_sheets_def append_or_create_def
  append_to_existing_def create_with_headers_def sheets_api_def bind_def
  candidate_row_def model_dump_def dict_get_def call_def Let_def
  startswith_def split_ws_def isspace_def downloads_dir_def collaborator_def

lemmas fixture_defs =
  env0_def world0_def mail_def jane_def good_validation_def invoice_validation_def
  env_invoice_def env_error_text_def env_second_fails_def env_search_down_def
  env_classifier_down_def env_no_file_def env_sheets_down_def after_read_def
  env_corrupt_pdf_def env_bad_page_def

section \<open>The two sheets\<close>

lemma on_sheet_simps [simp]:
  "on_sheet f []"
  "on_sheet f (Sheets c # evs) = (sheet_of c = f \<and> on_sheet f evs)"
  by (auto simp: on_sheet_def)

lemma on_sheet_append [simp]: "on_sheet f (xs @ ys) = (on_sheet f xs \<and> on_sheet f ys)"
  by (auto simp: on_sheet_def)

lemma append_to_existing_ok:
  "append_to_existing env f r s = (Inr v, s') \<Longrightarrow>
   \<exists>rows. sheets s f = Some rows \<and> sheets s' = (sheets s)(f \<mapsto> rows @ [r]) \<and>
     trace s' = trace s @ [Sheets (Open f), Sheets (Sheet1 f), Sheets (AppendRow f r)]"
  by (auto simp: append_to_existing_def bind_def sheets_api_def Let_def
           split: option.splits sum.splits prod.splits)

lemma append_to_existing_fail:
  "append_to_existing env f r s = (Inl e, s') \<Longrightarrow>
   sheets s' = sheets s \<and> (\<exists>evs. trace s' = trace s @ evs \<and> on_sheet f evs) \<and>
   ((\<exists>m. e = SpreadsheetNotFound m) \<longrightarrow> sheets s f = None \<and> trace s' = trace s @ [Sheets (Open f)])"
  by (auto simp: append_to_existing_def bind_def sheets_api_def Let_def
           split: option.splits sum.splits prod.splits)

lemma create_with_headers_ok:
  "create_with_headers env f h r s = (Inr v, s') \<Longrightarrow>
   sheets s' = (sheets s)(f \<mapsto> [h, r]) \<and>
   trace s' = trace s @ [Sheets (Create f), Sheets (Share f collaborator ''writer''),
      Sheets (Sheet1 f), Sheets (AppendRow f h), Sheets (AppendRow f r)]"
  by (auto simp: create_with_headers_def bind_def sheets_api_def Let_def
           split: option.splits sum.splits prod.splits)

lemma create_with_headers_fail:
  "create_with_headers env f h r s = (Inl e, s') \<Longrightarrow>
   (sheets s' = sheets s \<or> sheets s' = (sheets s)(f \<mapsto> []) \<or> sheets s' = (sheets s)(f \<mapsto> [h])) \<and>
   (\<exists>evs. trace s' = trace s @ evs \<and> on_sheet f evs)"
  by (auto simp: create_with_headers_def bind_def sheets_api_def Let_def
           split: option.splits sum.splits prod.splits)

lemma append_or_create_split:
  "append_or_create env f h r s = (res, s') \<Longrightarrow>
   (append_to_existing env f r s = (res, s') \<and> (\<forall>m. res \<noteq> Inl (SpreadsheetNotFound m))) \<or>
   (\<exists>m s1. append_to_existing env f r s = (Inl (SpreadsheetNotFound m), s1) \<and>
       create_with_headers env f h r s1 = (res, s'))"
  by (auto simp: append_or_create_def split: prod.splits sum.splits exn.splits)

lemma append_or_create_ok:
  assumes "append_or_create env f h r s = (Inr v, s')"
  shows "sheets s' = (sheets s)(f \<mapsto> (case sheets s f of None \<Rightarrow> [h] | Some rows \<Rightarrow> rows) @ [r]) \<and>
     trace s' = trace s @
       (case sheets s f of
          None \<Rightarrow> [Sheets (Open f), Sheets (Create f), Sheets (Share f collaborator ''writer''),
                   Sheets (Sheet1 f), Sheets (AppendRow f h), Sheets (AppendRow f r)]
        | Some rows \<Rightarrow> [Sheets (Open f), Sheets (Sheet1 f), Sheets (AppendRow f r)])"
proof -
  from append_or_create_split [OF assms] show ?thesis
  proof (elim disjE conjE exE)
    assume "append_to_existing env f r s = (Inr v, s')"
    from append_to_existing_ok [OF this] show ?thesis by auto
  next
    fix m s1
    assume a: "append_to_existing env f r s = (Inl (SpreadsheetNotFound m), s1)"
      and c: "create_with_headers env f h r s1 = (Inr v, s')"
    from append_to_existing_fail [OF a] have "sheets s1 = sheets s" "sheets s f = None"
      "trace s1 = trace s @ [Sheets (Open f)]" by auto
    with create_with_headers_ok [OF c] show ?thesis by simp
  qed
qed

lemma append_or_create_fail:
  assumes "append_or_create env f h r s = (Inl e, s')"
  shows "(\<forall>n. n \<noteq> f \<longrightarrow> sheets s' n = sheets s n) \<and>
     no_record_added h (sheets s f) (sheets s' f) \<and>
     (\<exists>evs. trace s' = trace s @ evs \<and> on_sheet f evs)"
proof -
  from append_or_create_split [OF assms] show ?thesis
  proof (elim disjE conjE exE)
    assume "append_to_existing env f r s = (Inl e, s')"
    from append_to_existing_fail [OF this] show ?thesis
      by (simp add: no_record_added_def)
  next
    fix m s1
    assume a: "append_to_existing env f r s = (Inl (SpreadsheetNotFound m), s1)"
      and c: "create_with_headers env f h r s1 = (Inl e, s')"
    from append_to_existing_fail [OF a] have 1: "sheets s1 = sheets s" "sheets s f = None"
      "trace s1 = trace s @ [Sheets (Open f)]" by auto
    from create_with_headers_fail [OF c] obtain evs where
      2: "sheets s' = sheets s1 \<or> sheets s' = (sheets s1)(f \<mapsto> []) \<or> sheets s' = (sheets s1)(f \<mapsto> [h])"
      and 3: "trace s' = trace s1 @ evs" "on_sheet f evs" by blast
    from 1 3 have "trace s' = trace s @ (Sheets (Open f) # evs)" "on_sheet f (Sheets (Open f) # evs)"
      by simp_all
    then have t: "\<exists>evs. trace s' = trace s @ evs \<and> on_sheet f evs" by blast
    from 1 2 have "(\<forall>n. n \<noteq> f \<longrightarrow> sheets s' n = sheets s n) \<and>
       no_record_added h (sheets s f) (sheets s' f)"
      by (auto simp: no_record_added_def)
    with t show ?thesis by blast
  qed
qed

lemma save_to_sheets_ok:
  "save_to_sheets env data f s = (Inr v, s') \<Longrightarrow>
   sheets s' = (sheets s)(f \<mapsto>
      (case sheets s f of None \<Rightarrow> [candidate_headers] | Some rows \<Rightarrow> rows) @ [candidate_row data]) \<and>
   trace s' = trace s @
       (case sheets s f of
          None \<Rightarrow> [Sheets (Open f), Sheets (Create f), Sheets (Share f collaborator ''writer''),
                   Sheets (Sheet1 f), Sheets (AppendRow f candidate_headers),
                   Sheets (AppendRow f (candidate_row data))]
        | Some rows \<Rightarrow> [Sheets (Open f), Sheets (Sheet1 f), Sheets (AppendRow f (candidate_row data))])"
  using append_or_create_ok [of env f candidate_headers "candidate_row data" s v s']
  by (simp add: save_to_sheets_def)

lemma save_rejected_to_sheets_ok:
  "save_rejected_to_sheets env who dt rs f s = (Inr v, s') \<Longrightarrow>
   sheets s' = (sheets s)(f \<mapsto>
      (case sheets s f of None \<Rightarrow> [rejected_headers] | Some rows \<Rightarrow> rows) @
      [[S (now env (trace s)), S who, S dt, S rs]]) \<and>
   trace s' = trace s @ Now #
       (case sheets s f of
          None \<Rightarrow> [Sheets (Open f), Sheets (Create f), Sheets (Share f collaborator ''writer''),
                   Sheets (Sheet1 f), Sheets (AppendRow f rejected_headers),
                   Sheets (AppendRow f [S (now env (trace s)), S who, S dt, S rs])]
        | Some rows \<Rightarrow> [Sheets (Open f), Sheets (Sheet1 f),
                        Sheets (AppendRow f [S (now env (trace s)), S who, S dt, S rs])])"
  using append_or_create_ok [of env f rejected_headers "[S (now env (trace s)), S who, S dt, S rs]"
      "call Now s" v s']
  by (simp add: save_rejected_to_sheets_def Let_def)

lemma eval_save_jane:
  "save_to_sheets env0 (model_dump jane) ''candidates'' world0 =
     (Inr (),
      \<lparr>sheets = [''candidates'' \<mapsto> [candidate_headers, jane_row]],
       trace = [Sheets (Open ''candidates''), Sheets (Create ''candidates''),
                Sheets (Share ''candidates'' collaborator ''writer''), Sheets (Sheet1 ''candidates''),
                Sheets (AppendRow ''candidates'' candidate_headers),
                Sheets (AppendRow ''candidates'' jane_row)]\<rparr>)"
  by (simp add: model_defs fixture_defs jane_row_def)

lemma eval_reject_invoice:
  "save_rejected_to_sheets env0 ''bob@example.com'' ''invoice'' ''Not a resume''
      ''rejected_applications'' world0 =
     (Inr (),
      \<lparr>sheets = [''rejected_applications'' \<mapsto>
          [rejected_headers,
           [S ''2024-01-15 10:00:00'', S ''bob@example.com'', S ''invoice'', S ''Not a resume'']]],
       trace = [Now, Sheets (Open ''rejected_applications''), Sheets (Create ''rejected_applications''),
                Sheets (Share ''rejected_applications'' collaborator ''writer''),
                Sheets (Sheet1 ''rejected_applications''),
                Sheets (AppendRow ''rejected_applications'' rejected_headers),
                Sheets (AppendRow ''rejected_applications''
                  [S ''2024-01-15 10:00:00'', S ''bob@example.com'', S ''invoice'',
                   S ''Not a resume''])]\<rparr>)"
  by (simp add: model_defs fixture_defs)

lemma candidate_row_jane: "candidate_row (model_dump jane) = jane_row"
  by (simp add: candidate_row_def model_dump_def dict_get_def jane_def jane_row_def)

text \<open>
  C6, as the code has it. On first use of an absent store that ends without an
  exception, each sink is created with its fixed header row, after write access
  was granted to the collaborator and before the data row: the candidates store
  with the header \<open>Name, Email, Phone, Skills, Experience, Status, Summary,
  questions\<close>, the rejected-applications store with the header \<open>Timestamp,
  Sender, Document Type, Rejection Reason\<close>. The store then holds the header row
  and the data row, in that order.
\<close>

theorem sinks_created_with_headers:
  "(sheets s f = None \<and> save_to_sheets env data f s = (Inr v, s') \<longrightarrow>
      sheets s' f =
        Some [[S ''Name'', S ''Email'', S ''Phone'', S ''Skills'', S ''Experience'', S ''Status'',
               S ''Summary'', S ''questions''], candidate_row data] \<and>
      new_events s s' =
        [Sheets (Open f), Sheets (Create f), Sheets (Share f ''mdhananjay776@gmail.com'' ''writer''),
         Sheets (Sheet1 f),
         Sheets (AppendRow f [S ''Name'', S ''Email'', S ''Phone'', S ''Skills'', S ''Experience'',
                              S ''Status'', S ''Summary'', S ''questions'']),
         Sheets (AppendRow f (candidate_row data))]) \<and>
   (sheets t g = None \<and> save_rejected_to_sheets env who dt rs g t = (Inr w, t') \<longrightarrow>
      sheets t' g =
        Some [[S ''Timestamp'', S ''Sender'', S ''Document Type'', S ''Rejection Reason''],
              [S (now env (trace t)), S who, S dt, S rs]] \<and>
      new_events t t' =
        [Now, Sheets (Open g), Sheets (Create g), Sheets (Share g ''mdhananjay776@gmail.com'' ''writer''),
         Sheets (Sheet1 g),
         Sheets (AppendRow g [S ''Timestamp'', S ''Sender'', S ''Document Type'',
                              S ''Rejection Reason'']),
         Sheets (AppendRow g [S (now env (trace t)), S who, S dt, S rs])])"
proof (intro conjI impI)
  assume a: "sheets s f = None \<and> save_to_sheets env data f s = (Inr v, s')"
  then have "save_to_sheets env data f s = (Inr v, s')" by simp
  from save_to_sheets_ok [OF this] a
  have 1: "sheets s' = (sheets s)(f \<mapsto> [candidate_headers, candidate_row data])"
    and 2: "trace s' = trace s @ [Sheets (Open f), Sheets (Create f),
               Sheets (Share f collaborator ''writer''), Sheets (Sheet1 f),
               Sheets (AppendRow f candidate_headers), Sheets (AppendRow f (candidate_row data))]"
    by simp_all
  from 1 show "sheets s' f =
        Some [[S ''Name'', S ''Email'', S ''Phone'', S ''Skills'', S ''Experience'', S ''Status'',
               S ''Summary'', S ''questions''], candidate_row data]"
    by (simp add: candidate_headers_def)
  from new_events_append [OF 2] show "new_events s s' =
        [Sheets (Open f), Sheets (Create f), Sheets (Share f ''mdhananjay776@gmail.com'' ''writer''),
         Sheets (Sheet1 f),
         Sheets (AppendRow f [S ''Name'', S ''Email'', S ''Phone'', S ''Skills'', S ''Experience'',
                              S ''Status'', S ''Summary'', S ''questions'']),
         Sheets (AppendRow f (candidate_row data))]"
    by (simp add: candidate_headers_def collaborator_def)
next
  assume a: "sheets t g = None \<and> save_rejected_to_sheets env who dt rs g t = (Inr w, t')"
  then have "save_rejected_to_sheets env who dt rs g t = (Inr w, t')" by simp
  from save_rejected_to_sheets_ok [OF this] a
  have 1: "sheets t' = (sheets t)(g \<mapsto> [rejected_headers, [S (now env (trace t)), S who, S dt, S rs]])"
    and 2: "trace t' = trace t @ [Now, Sheets (Open g), Sheets (Create g),
               Sheets (Share g collaborator ''writer''), Sheets (Sheet1 g),
               Sheets (AppendRow g rejected_headers),
               Sheets (AppendRow g [S (now env (trace t)), S who, S dt, S rs])]"
    by simp_all
  from 1 show "sheets t' g =
        Some [[S ''Timestamp'', S ''Sender'', S ''Document Type'', S ''Rejection Reason''],
              [S (now env (trace t)), S who, S dt, S rs]]"
    by (simp add: rejected_headers_def)
  from new_events_append [OF 2] show "new_events t t' =
        [Now, Sheets (Open g), Sheets (Create g), Sheets (Share g ''mdhananjay776@gmail.com'' ''writer''),
         Sheets (Sheet1 g),
         Sheets (AppendRow g [S ''Timestamp'', S ''Sender'', S ''Document Type'',
                              S ''Rejection Reason'']),
         Sheets (AppendRow g [S (now env (trace t)), S who, S dt, S rs])]"
    by (simp add: rejected_headers_def collaborator_def)
qed

theorem sinks_created_with_headers_witness:
  "sheets world0 ''candidates'' = None \<and>
   save_to_sheets env0 (model_dump jane) ''candidates'' world0 =
     (Inr (), snd (save_to_sheets env0 (model_dump jane) ''candidates'' world0)) \<and>
   sheets (snd (save_to_sheets env0 (model_dump jane) ''candidates'' world0)) ''candidates'' =
     Some [[S ''Name'', S ''Email'', S ''Phone'', S ''Skills'', S ''Experience'', S ''Status'',
            S ''Summary'', S ''questions''], jane_row] \<and>
   sheets world0 ''rejected_applications'' = None \<and>
   save_rejected_to_sheets env0 ''bob@example.com'' ''invoice'' ''Not a resume''
      ''rejected_applications'' world0 =
     (Inr (), snd (save_rejected_to_sheets env0 ''bob@example.com'' ''invoice'' ''Not a resume''
      ''rejected_applications'' world0)) \<and>
   sheets (snd (save_rejected_to_sheets env0 ''bob@example.com'' ''invoice'' ''Not a resume''
      ''rejected_applications'' world0)) ''rejected_applications'' =
     Some [[S ''Timestamp'', S ''Sender'', S ''Document Type'', S ''Rejection Reason''],
           [S ''2024-01-15 10:00:00'', S ''bob@example.com'', S ''invoice'', S ''Not a resume'']]"
proof -
  have a: "sheets world0 ''candidates'' = None" "sheets world0 ''rejected_applications'' = None"
    by (simp_all add: world0_def)
  have b: "save_to_sheets env0 (model_dump jane) ''candidates'' world0 =
     (Inr (), snd (save_to_sheets env0 (model_dump jane) ''candidates'' world0))"
    by (simp add: eval_save_jane)
  have c: "save_rejected_to_sheets env0 ''bob@example.com'' ''invoice'' ''Not a resume''
      ''rejected_applications'' world0 =
     (Inr (), snd (save_rejected_to_sheets env0 ''bob@example.com'' ''invoice'' ''Not a resume''
      ''rejected_applications'' world0))"
    by (simp add: eval_reject_invoice)
  have n: "now env0 (trace world0) = ''2024-01-15 10:00:00''" by (simp add: env0_def)
  from sinks_created_with_headers [of world0 "''candidates''" env0 "model_dump jane" "()"
      "snd (save_to_sheets env0 (model_dump jane) ''candidates'' world0)"
      world0 "''rejected_applications''" "''bob@example.com''" "''invoice''" "''Not a resume''" "()"
      "snd (save_rejected_to_sheets env0 ''bob@example.com'' ''invoice'' ''Not a resume''
      ''rejected_applications'' world0)"] a b c n
  show ?thesis by (simp add: candidate_row_jane)
qed

text \<open>
  C6 as stated names the headers \<open>Questions\<close>, \<open>DocumentType\<close> and
  \<open>RejectionReason\<close>; the rows the code writes into a new store are not those.
\<close>

theorem headers_differ_counterexample:
  "sheets world0 ''candidates'' = None \<and>
   fst (save_to_sheets env0 (model_dump jane) ''candidates'' world0) = Inr () \<and>
   sheets (snd (save_to_sheets env0 (model_dump jane) ''candidates'' world0)) ''candidates'' \<noteq>
     Some [[S ''Name'', S ''Email'', S ''Phone'', S ''Skills'', S ''Experience'', S ''Status'',
            S ''Summary'', S ''Questions''], jane_row] \<and>
   sheets world0 ''rejected_applications'' = None \<and>
   fst (save_rejected_to_sheets env0 ''bob@example.com'' ''invoice'' ''Not a resume''
      ''rejected_applications'' world0) = Inr () \<and>
   sheets (snd (save_rejected_to_sheets env0 ''bob@example.com'' ''invoice'' ''Not a resume''
      ''rejected_applications'' world0)) ''rejected_applications'' \<noteq>
     Some [[S ''Timestamp'', S ''Sender'', S ''DocumentType'', S ''RejectionReason''],
           [S ''2024-01-15 10:00:00'', S ''bob@example.com'', S ''invoice'', S ''Not a resume'']]"
proof -
  have "sheets world0 ''candidates'' = None" "sheets world0 ''rejected_applications'' = None"
    by (simp_all add: world0_def)
  then show ?thesis
    by (simp add: eval_save_jane eval_reject_invoice candidate_headers_def rejected_headers_def)
qed

text \<open>
  C7. Two calls of \<open>save_to_sheets\<close> that return, the first on an absent store,
  leave the store with the header row followed by the two data rows, in that
  order. The second call opens the store and appends its row, and writes no
  header.
\<close>

theorem header_written_once:
  "sheets s f = None \<and> save_to_sheets env d1 f s = (Inr v1, s1) \<and>
   save_to_sheets env d2 f s1 = (Inr v2, s2) \<longrightarrow>
     sheets s2 f = Some [candidate_headers, candidate_row d1, candidate_row d2] \<and>
     new_events s s1 =
       [Sheets (Open f), Sheets (Create f), Sheets (Share f collaborator ''writer''),
        Sheets (Sheet1 f), Sheets (AppendRow f candidate_headers),
        Sheets (AppendRow f (candidate_row d1))] \<and>
     new_events s1 s2 =
       [Sheets (Open f), Sheets (Sheet1 f), Sheets (AppendRow f (candidate_row d2))]"
proof (intro impI)
  assume a: "sheets s f = None \<and> save_to_sheets env d1 f s = (Inr v1, s1) \<and>
   save_to_sheets env d2 f s1 = (Inr v2, s2)"
  then have c1: "save_to_sheets env d1 f s = (Inr v1, s1)"
    and c2: "save_to_sheets env d2 f s1 = (Inr v2, s2)" and n: "sheets s f = None" by simp_all
  from save_to_sheets_ok [OF c1] n
  have 1: "sheets s1 f = Some [candidate_headers, candidate_row d1]"
    and t1: "trace s1 = trace s @ [Sheets (Open f), Sheets (Create f),
        Sheets (Share f collaborator ''writer''),
        Sheets (Sheet1 f), Sheets (AppendRow f candidate_headers),
        Sheets (AppendRow f (candidate_row d1))]"
    by simp_all
  from save_to_sheets_ok [OF c2] 1
  have 2: "sheets s2 f = Some [candidate_headers, candidate_row d1, candidate_row d2]"
    and t2: "trace s2 = trace s1 @
        [Sheets (Open f), Sheets (Sheet1 f), Sheets (AppendRow f (candidate_row d2))]"
    by simp_all
  from 2 new_events_append [OF t1] new_events_append [OF t2]
  show "sheets s2 f = Some [candidate_headers, candidate_row d1, candidate_row d2] \<and>
     new_events s s1 =
       [Sheets (Open f), Sheets (Create f), Sheets (Share f collaborator ''writer''),
        Sheets (Sheet1 f), Sheets (AppendRow f candidate_headers),
        Sheets (AppendRow f (candidate_row d1))] \<and>
     new_events s1 s2 =
       [Sheets (Open f), Sheets (Sheet1 f), Sheets (AppendRow f (candidate_row d2))]"
    by simp
qed

theorem header_written_once_witness:
  "sheets world0 ''candidates'' = None \<and>
   save_to_sheets env0 (model_dump jane) ''candidates'' world0 =
     (Inr (), snd (save_to_sheets env0 (model_dump jane) ''candidates'' world0)) \<and>
   save_to_sheets env0 (model_dump jane) ''candidates''
       (snd (save_to_sheets env0 (model_dump jane) ''candidates'' world0)) =
     (Inr (), snd (save_to_sheets env0 (model_dump jane) ''candidates''
       (snd (save_to_sheets env0 (model_dump jane) ''candidates'' world0)))) \<and>
   sheets (snd (save_to_sheets env0 (model_dump jane) ''candidates''
       (snd (save_to_sheets env0 (model_dump jane) ''candidates'' world0)))) ''candidates'' =
     Some [candidate_headers, jane_row, jane_row]"
proof -
  let ?s1 = "snd (save_to_sheets env0 (model_dump jane) ''candidates'' world0)"
  let ?s2 = "snd (save_to_sheets env0 (model_dump jane) ''candidates'' ?s1)"
  have a: "sheets world0 ''candidates'' = None" by (simp add: world0_def)
  have b: "save_to_sheets env0 (model_dump jane) ''candidates'' world0 = (Inr (), ?s1)"
    by (simp add: eval_save_jane)
  have "fst (save_to_sheets env0 (model_dump jane) ''candidates'' ?s1) = Inr ()"
    by (simp add: eval_save_jane) (simp add: model_defs fixture_defs)
  then have c: "save_to_sheets env0 (model_dump jane) ''candidates'' ?s1 = (Inr (), ?s2)"
    by (metis prod.collapse)
  from header_written_once [of world0 "''candidates''" env0 "model_dump jane" "()" ?s1
      "model_dump jane" "()" ?s2] a b c
  show ?thesis by (simp add: candidate_row_jane)
qed


section \<open>The stages of one email\<close>

lemma no_llm_or_sheets_simps [simp]:
  "no_llm_or_sheets []"
  "no_llm_or_sheets (ev # evs) =
     (\<not> is_classify ev \<and> \<not> is_extract ev \<and> \<not> is_sheets ev \<and> no_llm_or_sheets evs)"
  "no_llm_or_sheets (xs @ ys) = (no_llm_or_sheets xs \<and> no_llm_or_sheets ys)"
  by (auto simp: no_llm_or_sheets_def)

lemma on_sheet_no_extract: "on_sheet f evs \<Longrightarrow> ev \<in> set evs \<Longrightarrow> \<not> is_extract ev"
  by (auto simp: on_sheet_def)

lemma save_pdf_effect:
  "save_pdf env c p s = (r, s') \<Longrightarrow>
   sheets s' = sheets s \<and> (\<exists>evs. trace s' = trace s @ evs \<and> no_llm_or_sheets evs)"
  by (auto simp: save_pdf_def Let_def split: option.splits list.splits sum.splits)

lemma extract_text_from_pdf_state:
  "extract_text_from_pdf env path s = (r, s') \<Longrightarrow> s' = call (PdfRead path) s \<and> (\<exists>t. r = Inr t)"
  by (auto simp: extract_text_from_pdf_cases)


lemma extract_text_from_pdf_success:
  "pdf_try_block env path s = (Inr t, s') \<Longrightarrow>
   extract_text_from_pdf env path s = (Inr t, s') \<and> s' = call (PdfRead path) s"
  using pdf_try_block_state [of env path s] by (simp add: extract_text_from_pdf_def)

lemma extract_llm_cases:
  "validate_resume env pdf_txt body_txt s = (Inr v, s1) \<Longrightarrow>
   extract_llm env body_txt pdf_txt False s =
     (if is_resume v \<and> confidence v \<noteq> Low
      then (Inr (case extractor env (trace s1) body_txt pdf_txt of
                   Inr d \<Rightarrow> Some d | Inl e \<Rightarrow> None),
            call (Extract body_txt pdf_txt) s1)
      else (Inr None, s1))"
  by (simp add: extract_llm_def extract_candidate_def Let_def split: sum.split)

lemma validate_resume_state:
  "validate_resume env pdf_txt body_txt s = (r, s1) \<Longrightarrow>
   (\<exists>v. r = Inr v) \<and> sheets s1 = sheets s \<and>
   (\<exists>a b. trace s1 = trace s @ [Classify a b])"
  by (auto simp: validate_resume_cases)


lemma eval_error_text_download:
  "save_pdf env_error_text [mail ''m1''] downloads_dir world0 =
     (Inr (downloads_dir @ ''/resume.pdf'', ''Please find my resume attached.''),
      \<lparr>sheets = Map.empty,
       trace = [MakeDirs downloads_dir, AttachmentGet ''m1'' (Some ''a1''),
                FileWrite (downloads_dir @ ''/resume.pdf'')]\<rparr>)"
  by (simp add: save_pdf_def call_def Let_def fixture_defs)

lemma eval_error_text_pdf:
  "pdf_try_block env_error_text (downloads_dir @ ''/resume.pdf'')
     \<lparr>sheets = Map.empty,
      trace = [MakeDirs downloads_dir, AttachmentGet ''m1'' (Some ''a1''),
               FileWrite (downloads_dir @ ''/resume.pdf'')]\<rparr> =
     (Inr ''Error analysis engineer Jane Roe'',
      \<lparr>sheets = Map.empty,
       trace = [MakeDirs downloads_dir, AttachmentGet ''m1'' (Some ''a1''),
                FileWrite (downloads_dir @ ''/resume.pdf''),
                PdfRead (downloads_dir @ ''/resume.pdf'')]\<rparr>)"
  by (simp add: pdf_try_block_def call_def Let_def split_ws_def isspace_def fixture_defs)

text \<open>
  C10. The failure marker is the prefix \<open>Error\<close> of the returned string. When
  the download and the PDF extraction succeed and the normalised text itself
  starts with \<open>Error\<close>, the loop body takes the text for a failure and continues
  with the next email: no classifier call, no extractor call, no call of the
  tabular store, and both sinks as they were.
\<close>

theorem error_prefix_text_skipped:
  "attachments m \<noteq> [] \<and> save_pdf env [m] downloads_dir s = (Inr (path, b), s1) \<and>
   pdf_try_block env path s1 = (Inr txt, s2) \<and> startswith txt ''Error'' \<longrightarrow>
     process_email env m s = (Inr (), s2) \<and> sheets s2 = sheets s \<and>
     no_llm_or_sheets (new_events s s2)"
proof (intro impI)
  assume a: "attachments m \<noteq> [] \<and> save_pdf env [m] downloads_dir s = (Inr (path, b), s1) \<and>
   pdf_try_block env path s1 = (Inr txt, s2) \<and> startswith txt ''Error''"
  then have att: "attachments m \<noteq> []"
    and dl: "save_pdf env [m] downloads_dir s = (Inr (path, b), s1)"
    and pdf: "pdf_try_block env path s1 = (Inr txt, s2)"
    and err: "startswith txt ''Error''" by simp_all
  from extract_text_from_pdf_success [OF pdf]
  have ex: "extract_text_from_pdf env path s1 = (Inr txt, s2)" and s2: "s2 = call (PdfRead path) s1"
    by simp_all
  from att dl ex err have 1: "process_email env m s = (Inr (), s2)"
    by (simp add: process_email_def)
  from save_pdf_effect [OF dl] obtain evs where
    sh: "sheets s1 = sheets s" and tr: "trace s1 = trace s @ evs" and q: "no_llm_or_sheets evs"
    by blast
  from tr s2 have "trace s2 = trace s @ (evs @ [PdfRead path])" by simp
  from new_events_append [OF this] q have 3: "no_llm_or_sheets (new_events s s2)" by simp
  from sh s2 have 2: "sheets s2 = sheets s" by simp
  from 1 2 3 show "process_email env m s = (Inr (), s2) \<and> sheets s2 = sheets s \<and>
     no_llm_or_sheets (new_events s s2)" by simp
qed

theorem error_prefix_text_skipped_witness:
  "attachments (mail ''m1'') \<noteq> [] \<and>
   fst (save_pdf env_error_text [mail ''m1''] downloads_dir world0) =
     Inr (downloads_dir @ ''/resume.pdf'', ''Please find my resume attached.'') \<and>
   fst (pdf_try_block env_error_text (downloads_dir @ ''/resume.pdf'')
     (snd (save_pdf env_error_text [mail ''m1''] downloads_dir world0))) =
     Inr ''Error analysis engineer Jane Roe'' \<and>
   startswith ''Error analysis engineer Jane Roe'' ''Error'' \<and>
   fst (process_email env_error_text (mail ''m1'') world0) = Inr () \<and>
   sheets (snd (process_email env_error_text (mail ''m1'') world0)) = sheets world0 \<and>
   new_events world0 (snd (process_email env_error_text (mail ''m1'') world0)) =
     [MakeDirs downloads_dir, AttachmentGet ''m1'' (Some ''a1''),
      FileWrite (downloads_dir @ ''/resume.pdf''), PdfRead (downloads_dir @ ''/resume.pdf'')]"
proof -
  let ?s1 = "\<lparr>sheets = Map.empty,
       trace = [MakeDirs downloads_dir, AttachmentGet ''m1'' (Some ''a1''),
                FileWrite (downloads_dir @ ''/resume.pdf'')]\<rparr>"
  let ?s2 = "\<lparr>sheets = Map.empty,
       trace = [MakeDirs downloads_dir, AttachmentGet ''m1'' (Some ''a1''),
                FileWrite (downloads_dir @ ''/resume.pdf''),
                PdfRead (downloads_dir @ ''/resume.pdf'')]\<rparr>"
  have att: "attachments (mail ''m1'') \<noteq> []" by (simp add: mail_def)
  have st: "startswith ''Error analysis engineer Jane Roe'' ''Error''"
    by (simp add: startswith_def)
  from error_prefix_text_skipped [of "mail ''m1''" env_error_text world0
      "downloads_dir @ ''/resume.pdf''" "''Please find my resume attached.''" ?s1
      "''Error analysis engineer Jane Roe''" ?s2]
    att st eval_error_text_download eval_error_text_pdf
  have r: "process_email env_error_text (mail ''m1'') world0 = (Inr (), ?s2)" by simp
  have ne: "new_events world0 ?s2 =
     [MakeDirs downloads_dir, AttachmentGet ''m1'' (Some ''a1''),
      FileWrite (downloads_dir @ ''/resume.pdf''), PdfRead (downloads_dir @ ''/resume.pdf'')]"
    by (simp add: new_events_def world0_def)
  have sh: "sheets ?s2 = sheets world0" by (simp add: world0_def)
  from att st r ne sh eval_error_text_download eval_error_text_pdf show ?thesis by simp
qed

section \<open>Routing after classification\<close>

lemma append_to_existing_opens:
  "append_to_existing env f r s = (res, s') \<Longrightarrow>
   \<exists>evs. trace s' = trace s @ Sheets (Open f) # evs \<and> on_sheet f evs"
  by (auto simp: append_to_existing_def bind_def sheets_api_def Let_def
           split: option.splits sum.splits prod.splits)

lemma create_with_headers_events:
  "create_with_headers env f h r s = (res, s') \<Longrightarrow>
   \<exists>evs. trace s' = trace s @ evs \<and> on_sheet f evs"
proof (cases res)
  case (Inl e)
  assume "create_with_headers env f h r s = (res, s')"
  with Inl create_with_headers_fail [of env f h r s e s'] show ?thesis by simp
next
  case (Inr v)
  assume "create_with_headers env f h r s = (res, s')"
  with Inr create_with_headers_ok [of env f h r s v s'] show ?thesis by simp
qed

lemma append_or_create_opens:
  assumes "append_or_create env f h r s = (res, s')"
  shows "\<exists>evs. trace s' = trace s @ Sheets (Open f) # evs \<and> on_sheet f evs"
proof -
  from append_or_create_split [OF assms] show ?thesis
  proof (elim disjE conjE exE)
    assume "append_to_existing env f r s = (res, s')"
    then show ?thesis by (rule append_to_existing_opens)
  next
    fix m s1
    assume a: "append_to_existing env f r s = (Inl (SpreadsheetNotFound m), s1)"
      and c: "create_with_headers env f h r s1 = (res, s')"
    from append_to_existing_fail [OF a] have 1: "trace s1 = trace s @ [Sheets (Open f)]" by simp
    from create_with_headers_events [OF c] obtain evs where
      "trace s' = trace s1 @ evs" "on_sheet f evs" by blast
    with 1 have "trace s' = trace s @ Sheets (Open f) # evs \<and> on_sheet f evs" by simp
    then show ?thesis by blast
  qed
qed

lemma append_or_create_others:
  assumes "append_or_create env f h r s = (res, s')" and "n \<noteq> f"
  shows "sheets s' n = sheets s n"
proof (cases res)
  case (Inl e)
  with assms append_or_create_fail [of env f h r s e s'] show ?thesis by simp
next
  case (Inr v)
  with assms append_or_create_ok [of env f h r s v s'] show ?thesis by simp
qed

lemma save_rejected_to_sheets_any:
  assumes "save_rejected_to_sheets env who dt rs f s = (res, s')"
  shows "(\<forall>n. n \<noteq> f \<longrightarrow> sheets s' n = sheets s n) \<and>
     (\<exists>evs. trace s' = trace s @ Now # Sheets (Open f) # evs \<and> on_sheet f evs)"
proof -
  from assms have a: "append_or_create env f rejected_headers
      [S (now env (trace s)), S who, S dt, S rs] (call Now s) = (res, s')"
    by (simp add: save_rejected_to_sheets_def Let_def)
  from append_or_create_opens [OF a] append_or_create_others [OF a]
  show ?thesis by simp
qed




lemma validate_and_route_reject:
  assumes "validate_resume env t b s = (Inr v, s1)" and "\<not> is_resume v \<or> confidence v = Low"
  shows "validate_and_route env m b t s =
     save_rejected_to_sheets env (sender m) ''non-resume'' ''Failed resume validation check''
       ''rejected_applications'' s1"
  using assms extract_llm_cases [OF assms(1)] by (auto simp: validate_and_route_def)


lemma rejected_routing:
  assumes v: "validate_resume env t b s = (Inr v, s1)" and rej: "\<not> is_resume v \<or> confidence v = Low"
    and r: "validate_and_route env m b t s = (res, s')"
  shows "(\<forall>ev\<in>set (new_events s s'). \<not> is_extract ev) \<and>
     (\<exists>evs. new_events s s' =
        new_events s s1 @ Now # Sheets (Open ''rejected_applications'') # evs \<and>
        on_sheet ''rejected_applications'' evs) \<and>
     sheets s' ''candidates'' = sheets s ''candidates'' \<and>
     (res = Inr () \<longrightarrow>
        sheets s' ''rejected_applications'' =
          Some ((case sheets s ''rejected_applications'' of
                   None \<Rightarrow> [rejected_headers] | Some rows \<Rightarrow> rows) @
                [[S (now env (trace s1)), S (sender m), S ''non-resume'',
                  S ''Failed resume validation check'']]))"
proof -
  from validate_resume_state [OF v] obtain a c where
    sh1: "sheets s1 = sheets s" and tr1: "trace s1 = trace s @ [Classify a c]" by blast
  from validate_and_route_reject [OF v rej] r
  have sr: "save_rejected_to_sheets env (sender m) ''non-resume''
      ''Failed resume validation check'' ''rejected_applications'' s1 = (res, s')" by simp
  from save_rejected_to_sheets_any [OF sr] obtain evs where
    oth: "\<forall>n. n \<noteq> ''rejected_applications'' \<longrightarrow> sheets s' n = sheets s1 n"
    and tr: "trace s' = trace s1 @ Now # Sheets (Open ''rejected_applications'') # evs"
    and on: "on_sheet ''rejected_applications'' evs" by blast
  from tr tr1 have full: "trace s' =
      trace s @ ([Classify a c] @ Now # Sheets (Open ''rejected_applications'') # evs)" by simp
  have ne1: "new_events s s1 = [Classify a c]" using new_events_append [OF tr1] .
  have ne: "new_events s s' = [Classify a c] @ Now # Sheets (Open ''rejected_applications'') # evs"
    using new_events_append [OF full] .
  have 1: "\<forall>ev\<in>set (new_events s s'). \<not> is_extract ev"
    using ne on by (auto simp: on_sheet_def)
  have 2: "\<exists>evs. new_events s s' =
        new_events s s1 @ Now # Sheets (Open ''rejected_applications'') # evs \<and>
        on_sheet ''rejected_applications'' evs"
    using ne ne1 on by simp
  have 3: "sheets s' ''candidates'' = sheets s ''candidates''" using oth sh1 by simp
  have 4: "res = Inr () \<longrightarrow>
        sheets s' ''rejected_applications'' =
          Some ((case sheets s ''rejected_applications'' of
                   None \<Rightarrow> [rejected_headers] | Some rows \<Rightarrow> rows) @
                [[S (now env (trace s1)), S (sender m), S ''non-resume'',
                  S ''Failed resume validation check'']])"
  proof
    assume "res = Inr ()"
    with sr save_rejected_to_sheets_ok [of env "sender m" "''non-resume''"
        "''Failed resume validation check''" "''rejected_applications''" s1 "()" s'] sh1
    show "sheets s' ''rejected_applications'' =
          Some ((case sheets s ''rejected_applications'' of
                   None \<Rightarrow> [rejected_headers] | Some rows \<Rightarrow> rows) @
                [[S (now env (trace s1)), S (sender m), S ''non-resume'',
                  S ''Failed resume validation check'']])" by simp
  qed
  from 1 2 3 4 show ?thesis by blast
qed

lemma validate_and_route_no_extract:
  assumes v: "validate_resume env t b s = (Inr v, s1)" and rej: "\<not> is_resume v \<or> confidence v = Low"
    and r: "validate_and_route env m b t s = (res, s')"
  shows "\<exists>evs. trace s' = trace s @ evs \<and> (\<forall>ev\<in>set evs. \<not> is_extract ev)"
proof -
  from validate_resume_state [OF v] obtain a c where
    tr1: "trace s1 = trace s @ [Classify a c]" by blast
  from validate_and_route_reject [OF v rej] r
  have sr: "save_rejected_to_sheets env (sender m) ''non-resume''
      ''Failed resume validation check'' ''rejected_applications'' s1 = (res, s')" by simp
  from save_rejected_to_sheets_any [OF sr] obtain evs where
    tr: "trace s' = trace s1 @ Now # Sheets (Open ''rejected_applications'') # evs"
    and on: "on_sheet ''rejected_applications'' evs" by blast
  from tr tr1 have "trace s' =
      trace s @ ([Classify a c] @ Now # Sheets (Open ''rejected_applications'') # evs)" by simp
  moreover have "\<forall>ev\<in>set ([Classify a c] @ Now # Sheets (Open ''rejected_applications'') # evs).
      \<not> is_extract ev" using on by (auto simp: on_sheet_def)
  ultimately show ?thesis by blast
qed

lemma process_email_reaches:
  "attachments m \<noteq> [] \<and> save_pdf env [m] downloads_dir s = (Inr (path, b), sa) \<and>
   extract_text_from_pdf env path sa = (Inr t, sb) \<and> \<not> startswith t ''Error'' \<Longrightarrow>
   process_email env m s = validate_and_route env m b t sb"
  by (simp add: process_email_def)

lemma extract_gate_message:
  assumes p: "process_email env m s = (res, s')"
    and x: "\<exists>ev\<in>set (new_events s s'). is_extract ev"
  shows "\<exists>path b t sa sb v sc. attachments m \<noteq> [] \<and>
      save_pdf env [m] downloads_dir s = (Inr (path, b), sa) \<and>
      extract_text_from_pdf env path sa = (Inr t, sb) \<and> \<not> startswith t ''Error'' \<and>
      validate_resume env t b sb = (Inr v, sc) \<and> is_resume v \<and> confidence v \<noteq> Low"
proof (cases "attachments m = []")
  case True
  with p have "s' = s" by (simp add: process_email_def)
  with x show ?thesis by simp
next
  case False
  note att = this
  obtain r1 sa where dl: "save_pdf env [m] downloads_dir s = (r1, sa)" by (cases "save_pdf env [m] downloads_dir s")
  from save_pdf_effect [OF dl] obtain evs where
    tra: "trace sa = trace s @ evs" and q: "no_llm_or_sheets evs" by blast
  show ?thesis
  proof (cases r1)
    case (Inl e)
    with att dl p have "s' = sa" by (simp add: process_email_def)
    with tra have "new_events s s' = evs" by (simp add: new_events_append)
    with x q show ?thesis by (auto simp: no_llm_or_sheets_def)
  next
    case (Inr pb)
    obtain path b where pb: "pb = (path, b)" by (cases pb)
    with Inr dl have dl': "save_pdf env [m] downloads_dir s = (Inr (path, b), sa)" by simp
    obtain r2 sb where ex: "extract_text_from_pdf env path sa = (r2, sb)"
      by (cases "extract_text_from_pdf env path sa")
    from extract_text_from_pdf_state [OF ex] obtain t where
      sb: "sb = call (PdfRead path) sa" and r2: "r2 = Inr t" by blast
    from ex r2 have ex': "extract_text_from_pdf env path sa = (Inr t, sb)" by simp
    from tra sb have trb: "trace sb = trace s @ (evs @ [PdfRead path])" by simp
    show ?thesis
    proof (cases "startswith t ''Error''")
      case True
      with att dl' ex' p have "s' = sb" by (simp add: process_email_def)
      with trb have "new_events s s' = evs @ [PdfRead path]" by (simp add: new_events_append)
      with x q show ?thesis by (auto simp: no_llm_or_sheets_def)
    next
      case False
      note ne = this
      with att dl' ex' have "process_email env m s = validate_and_route env m b t sb"
        using process_email_reaches [of m env s path b sa t sb] by simp
      with p have vr: "validate_and_route env m b t sb = (res, s')" by simp
      obtain rv sc where v0: "validate_resume env t b sb = (rv, sc)"
        by (cases "validate_resume env t b sb")
      from validate_resume_state [OF v0] obtain v where rv: "rv = Inr v" by blast
      with v0 have v: "validate_resume env t b sb = (Inr v, sc)" by simp
      show ?thesis
      proof (cases "is_resume v \<and> confidence v \<noteq> Low")
        case True
        with att dl' ex' ne v show ?thesis by blast
      next
        case False
        then have rej: "\<not> is_resume v \<or> confidence v = Low" by simp
        from validate_and_route_no_extract [OF v rej vr] obtain evs2 where
          "trace s' = trace sb @ evs2" and nx: "\<forall>ev\<in>set evs2. \<not> is_extract ev" by blast
        with trb have "trace s' = trace s @ (evs @ [PdfRead path] @ evs2)" by simp
        from new_events_append [OF this] have "new_events s s' = evs @ [PdfRead path] @ evs2" .
        with x q nx show ?thesis by (auto simp: no_llm_or_sheets_def)
      qed
    qed
  qed
qed

lemma extract_llm_gate:
  assumes v: "validate_resume env t b s = (Inr v, s1)"
    and e: "extract_llm env b t False s = (r, s2)"
    and x: "r \<noteq> Inr None \<or> (\<exists>ev\<in>set (new_events s s2). is_extract ev)"
  shows "is_resume v \<and> confidence v \<noteq> Low"
proof (rule ccontr)
  assume n: "\<not> (is_resume v \<and> confidence v \<noteq> Low)"
  with extract_llm_cases [OF v] e have r: "r = Inr None" and s2: "s2 = s1" by simp_all
  from validate_resume_state [OF v] obtain a c where "trace s1 = trace s @ [Classify a c]" by blast
  from new_events_append [OF this] s2 have "new_events s s2 = [Classify a c]" by simp
  with x r show False by simp
qed

section \<open>Extraction is gated by the classification\<close>

lemma eval_invoice_validate:
  "validate_resume env_invoice ''Jane Roe Python developer'' ''Please find my resume attached.''
      after_read =
     (Inr invoice_validation,
      call (Classify ''Please find my resume attached.'' ''Jane Roe Python developer'') after_read)"
  by (simp add: validate_resume_cases env_invoice_def env0_def)

lemma eval_invoice_route:
  "validate_and_route env_invoice (mail ''m1'') ''Please find my resume attached.''
      ''Jane Roe Python developer'' after_read =
     (Inr (),
      \<lparr>sheets = [''rejected_applications'' \<mapsto>
          [rejected_headers,
           [S ''2024-01-15 10:00:00'', S ''jane@example.com'', S ''non-resume'',
            S ''Failed resume validation check'']]],
       trace = [MakeDirs downloads_dir, AttachmentGet ''m1'' (Some ''a1''),
                FileWrite (downloads_dir @ ''/resume.pdf''), PdfRead (downloads_dir @ ''/resume.pdf''),
                Classify ''Please find my resume attached.'' ''Jane Roe Python developer'',
                Now,
                Sheets (Open ''rejected_applications''), Sheets (Create ''rejected_applications''),
                Sheets (Share ''rejected_applications'' collaborator ''writer''),
                Sheets (Sheet1 ''rejected_applications''),
                Sheets (AppendRow ''rejected_applications'' rejected_headers),
                Sheets (AppendRow ''rejected_applications''
                  [S ''2024-01-15 10:00:00'', S ''jane@example.com'', S ''non-resume'',
                   S ''Failed resume validation check''])]\<rparr>)"
  by (simp add: model_defs fixture_defs)

lemma eval_invoice:
  "process_email env_invoice (mail ''m1'') world0 =
     validate_and_route env_invoice (mail ''m1'') ''Please find my resume attached.''
      ''Jane Roe Python developer'' after_read"
  by (simp add: eval_invoice_route) (simp add: model_defs fixture_defs)

text \<open>
  C1. \<open>main\<close> calls \<open>extract_llm\<close> with validation on. When the classifier's
  result has \<open>is_resume\<close> false or confidence \<open>low\<close>, \<open>extract_llm\<close> returns
  \<open>None\<close> without calling the extractor, and the loop body calls the rejection
  sink and never the candidates sink: the candidates store is as before, every
  store call after the classification is on the rejected-applications store, and
  when the sink returns, that store has gained the rejection row. Conversely, when
  \<open>extract_llm\<close> returns a record or calls the extractor, and whenever the
  processing of an email calls the extractor, the classification of that document
  had \<open>is_resume\<close> true and a confidence other than \<open>low\<close>. An email that has
  an attachment, is downloaded and yields a text that is not taken for a failure
  marker goes through these steps.
\<close>

theorem extraction_gated_by_classifier:
  "(validate_resume env pdf_txt body_txt s = (Inr v, s1) \<and>
    (\<not> is_resume v \<or> confidence v = Low) \<longrightarrow>
      extract_llm env body_txt pdf_txt False s = (Inr None, s1) \<and>
      (\<forall>ev\<in>set (new_events s s1). \<not> is_extract ev) \<and>
      (\<forall>res s'. validate_and_route env m body_txt pdf_txt s = (res, s') \<longrightarrow>
         (\<forall>ev\<in>set (new_events s s'). \<not> is_extract ev) \<and>
         (\<exists>evs. new_events s s' =
            new_events s s1 @ Now # Sheets (Open ''rejected_applications'') # evs \<and>
            on_sheet ''rejected_applications'' evs) \<and>
         sheets s' ''candidates'' = sheets s ''candidates'' \<and>
         (res = Inr () \<longrightarrow>
            sheets s' ''rejected_applications'' =
              Some ((case sheets s ''rejected_applications'' of
                       None \<Rightarrow> [rejected_headers] | Some rows \<Rightarrow> rows) @
                    [[S (now env (trace s1)), S (sender m), S ''non-resume'',
                      S ''Failed resume validation check'']])))) \<and>
   (validate_resume env pdf_txt body_txt s = (Inr v, s1) \<and>
    extract_llm env body_txt pdf_txt False s = (r, s2) \<and>
    (r \<noteq> Inr None \<or> (\<exists>ev\<in>set (new_events s s2). is_extract ev)) \<longrightarrow>
      is_resume v \<and> confidence v \<noteq> Low) \<and>
   (process_email env m s0 = (res0, s0') \<and> (\<exists>ev\<in>set (new_events s0 s0'). is_extract ev) \<longrightarrow>
      (\<exists>path b t sa sb v' sc. attachments m \<noteq> [] \<and>
         save_pdf env [m] downloads_dir s0 = (Inr (path, b), sa) \<and>
         extract_text_from_pdf env path sa = (Inr t, sb) \<and> \<not> startswith t ''Error'' \<and>
         validate_resume env t b sb = (Inr v', sc) \<and> is_resume v' \<and> confidence v' \<noteq> Low)) \<and>
   (attachments m \<noteq> [] \<and> save_pdf env [m] downloads_dir s0 = (Inr (path, b), sa) \<and>
    extract_text_from_pdf env path sa = (Inr t, sb) \<and> \<not> startswith t ''Error'' \<longrightarrow>
      process_email env m s0 = validate_and_route env m b t sb)"
proof (intro conjI impI)
  assume a: "validate_resume env pdf_txt body_txt s = (Inr v, s1) \<and>
    (\<not> is_resume v \<or> confidence v = Low)"
  then have v: "validate_resume env pdf_txt body_txt s = (Inr v, s1)"
    and rej: "\<not> is_resume v \<or> confidence v = Low" by simp_all
  from extract_llm_cases [OF v] rej
  show "extract_llm env body_txt pdf_txt False s = (Inr None, s1)" by auto
  from validate_resume_state [OF v] obtain a c where "trace s1 = trace s @ [Classify a c]" by blast
  from new_events_append [OF this]
  show "\<forall>ev\<in>set (new_events s s1). \<not> is_extract ev" by simp
  show "\<forall>res s'. validate_and_route env m body_txt pdf_txt s = (res, s') \<longrightarrow>
         (\<forall>ev\<in>set (new_events s s'). \<not> is_extract ev) \<and>
         (\<exists>evs. new_events s s' =
            new_events s s1 @ Now # Sheets (Open ''rejected_applications'') # evs \<and>
            on_sheet ''rejected_applications'' evs) \<and>
         sheets s' ''candidates'' = sheets s ''candidates'' \<and>
         (res = Inr () \<longrightarrow>
            sheets s' ''rejected_applications'' =
              Some ((case sheets s ''rejected_applications'' of
                       None \<Rightarrow> [rejected_headers] | Some rows \<Rightarrow> rows) @
                    [[S (now env (trace s1)), S (sender m), S ''non-resume'',
                      S ''Failed resume validation check'']]))"
    using rejected_routing [OF v rej] by blast
next
  assume "validate_resume env pdf_txt body_txt s = (Inr v, s1) \<and>
    extract_llm env body_txt pdf_txt False s = (r, s2) \<and>
    (r \<noteq> Inr None \<or> (\<exists>ev\<in>set (new_events s s2). is_extract ev))"
  then have g: "is_resume v \<and> confidence v \<noteq> Low" using extract_llm_gate by blast
  from g show "is_resume v" by simp
  from g show "confidence v \<noteq> Low" by simp
next
  assume "process_email env m s0 = (res0, s0') \<and> (\<exists>ev\<in>set (new_events s0 s0'). is_extract ev)"
  then show "\<exists>path b t sa sb v' sc. attachments m \<noteq> [] \<and>
         save_pdf env [m] downloads_dir s0 = (Inr (path, b), sa) \<and>
         extract_text_from_pdf env path sa = (Inr t, sb) \<and> \<not> startswith t ''Error'' \<and>
         validate_resume env t b sb = (Inr v', sc) \<and> is_resume v' \<and> confidence v' \<noteq> Low"
    using extract_gate_message [of env m s0 res0 s0'] by blast
next
  assume "attachments m \<noteq> [] \<and> save_pdf env [m] downloads_dir s0 = (Inr (path, b), sa) \<and>
    extract_text_from_pdf env path sa = (Inr t, sb) \<and> \<not> startswith t ''Error''"
  then show "process_email env m s0 = validate_and_route env m b t sb"
    by (rule process_email_reaches)
qed

theorem extraction_gated_by_classifier_witness:
  "validate_resume env_invoice ''Jane Roe Python developer'' ''Please find my resume attached.''
      after_read =
     (Inr invoice_validation,
      call (Classify ''Please find my resume attached.'' ''Jane Roe Python developer'') after_read) \<and>
   \<not> is_resume invoice_validation \<and>
   extract_llm env_invoice ''Please find my resume attached.'' ''Jane Roe Python developer'' False
      after_read =
     (Inr None,
      call (Classify ''Please find my resume attached.'' ''Jane Roe Python developer'') after_read) \<and>
   fst (process_email env_invoice (mail ''m1'') world0) = Inr () \<and>
   sheets (snd (process_email env_invoice (mail ''m1'') world0)) ''candidates'' = None \<and>
   sheets (snd (process_email env_invoice (mail ''m1'') world0)) ''rejected_applications'' =
     Some [rejected_headers,
           [S ''2024-01-15 10:00:00'', S ''jane@example.com'', S ''non-resume'',
            S ''Failed resume validation check'']]"
proof -
  let ?B = "''Please find my resume attached.''"
  let ?T = "''Jane Roe Python developer''"
  let ?s1 = "call (Classify ?B ?T) after_read"
  let ?s' = "snd (validate_and_route env_invoice (mail ''m1'') ?B ?T after_read)"
  have rej: "\<not> is_resume invoice_validation" by (simp add: invoice_validation_def)
  have route: "validate_and_route env_invoice (mail ''m1'') ?B ?T after_read = (Inr (), ?s')"
    by (simp add: eval_invoice_route)
  have n: "now env_invoice (trace ?s1) = ''2024-01-15 10:00:00''"
    by (simp add: env_invoice_def env0_def)
  have e: "sheets after_read ''candidates'' = None"
    "sheets after_read ''rejected_applications'' = None"
    "sender (mail ''m1'') = ''jane@example.com''"
    by (simp_all add: after_read_def mail_def)
  have prem: "validate_resume env_invoice ?T ?B after_read = (Inr invoice_validation, ?s1) \<and>
      (\<not> is_resume invoice_validation \<or> confidence invoice_validation = Low)"
    using eval_invoice_validate rej by simp
  note c = extraction_gated_by_classifier [where env = env_invoice and pdf_txt = ?T
      and body_txt = ?B and s = after_read and v = invoice_validation and ?s1.0 = ?s1
      and m = "mail ''m1''", THEN conjunct1, THEN mp, OF prem]
  from c have 1: "extract_llm env_invoice ?B ?T False after_read = (Inr None, ?s1)"
    by (rule conjunct1)
  note r = c [THEN conjunct2, THEN conjunct2, THEN spec, THEN spec, THEN mp, OF route]
  from r have 3: "sheets ?s' ''candidates'' = None" using e by simp
  from r have "sheets ?s' ''rejected_applications'' =
              Some ((case sheets after_read ''rejected_applications'' of
                       None \<Rightarrow> [rejected_headers] | Some rows \<Rightarrow> rows) @
                    [[S (now env_invoice (trace ?s1)), S (sender (mail ''m1'')), S ''non-resume'',
                      S ''Failed resume validation check'']])"
    by simp
  with n e have 4: "sheets ?s' ''rejected_applications'' =
     Some [rejected_headers,
           [S ''2024-01-15 10:00:00'', S ''jane@example.com'', S ''non-resume'',
            S ''Failed resume validation check'']]"
    by simp
  have 5: "fst (validate_and_route env_invoice (mail ''m1'') ?B ?T after_read) = Inr ()"
    by (simp add: eval_invoice_route)
  from 1 3 4 5 rej eval_invoice_validate show ?thesis by (simp add: eval_invoice)
qed

section \<open>What the rejection row carries\<close>

text \<open>
  C5 does not hold of the code. The classifier calls the document an \<open>invoice\<close>,
  and the row appended to the rejected-applications store has the fixed label
  \<open>non-resume\<close> in its document-type column (and the fixed reason):
  \<open>extract_llm\<close> returns only \<open>None\<close>, and \<open>main\<close> passes the literal.
\<close>

theorem rejection_row_document_type:
  "classifier env_invoice (trace after_read) ''Please find my resume attached.''
      ''Jane Roe Python developer'' = Inr invoice_validation \<and>
   document_type invoice_validation = ''invoice'' \<and>
   fst (process_email env_invoice (mail ''m1'') world0) = Inr () \<and>
   sheets (snd (process_email env_invoice (mail ''m1'') world0)) ''rejected_applications'' =
     Some [[S ''Timestamp'', S ''Sender'', S ''Document Type'', S ''Rejection Reason''],
           [S ''2024-01-15 10:00:00'', S ''jane@example.com'', S ''non-resume'',
            S ''Failed resume validation check'']]"
  by (simp add: eval_invoice eval_invoice_route rejected_headers_def)
     (simp add: env_invoice_def env0_def invoice_validation_def)

section \<open>One failing email does not stop the batch\<close>

lemma for_each_email_never_raises: "fst (for_each_email env content s) = Inr ()"
proof (induction content arbitrary: s)
  case Nil
  show ?case by simp
next
  case (Cons m rest)
  obtain r s1 where p: "process_email env m s = (r, s1)" by (cases "process_email env m s")
  then have "for_each_email env (m # rest) s = for_each_email env rest s1"
    by (cases r) simp_all
  with Cons show ?case by simp
qed













section \<open>One pass never raises\<close>

lemma search_gmail_cases:
  "search_gmail env s =
     (Inr (case gmail_search_tool env (trace s) ''subject:application has:attachment'' of
             Inr msg_ids \<Rightarrow> msg_ids | Inl e \<Rightarrow> []),
      call (GmailSearch ''subject:application has:attachment'') s)"
  by (simp add: search_gmail_def Let_def split: sum.split)

lemma read_email_loop_never_raises:
  "\<exists>c s'. read_email_loop env ids content s = (Inr c, s') \<and> sheets s' = sheets s"
proof (induction ids arbitrary: content s)
  case Nil
  show ?case by simp
next
  case (Cons i ids)
  show ?case
  proof (cases "gmail_get_message env (trace s) i")
    case (Inl e)
    with Cons [of content "call (GmailGet i) s"] show ?thesis by (simp add: Let_def)
  next
    case (Inr d)
    with Cons [of "content @ [d\<lparr>msg_id := i\<rparr>]" "call (GmailGet i) s"] show ?thesis
      by (simp add: Let_def)
  qed
qed

lemma read_email_loop_all_fail:
  "\<forall>h i. \<exists>e. gmail_get_message env h i = Inl e \<Longrightarrow>
   \<exists>s'. read_email_loop env ids content s = (Inr content, s') \<and> sheets s' = sheets s"
proof (induction ids arbitrary: s)
  case Nil
  show ?case by simp
next
  case (Cons i ids)
  from Cons.prems obtain e where "gmail_get_message env (trace s) i = Inl e" by blast
  with Cons.IH [OF Cons.prems, of "call (GmailGet i) s"] show ?case by (simp add: Let_def)
qed

lemma main_never_raises_aux: "fst (main env s) = Inr ()"
proof -
  let ?ids = "case gmail_search_tool env (trace s) ''subject:application has:attachment'' of
             Inr msg_ids \<Rightarrow> msg_ids | Inl e \<Rightarrow> []"
  let ?s1 = "call (GmailSearch ''subject:application has:attachment'') s"
  show ?thesis
  proof (cases "?ids = []")
    case True
    then show ?thesis by (simp add: main_def bind_def search_gmail_cases)
  next
    case False
    obtain c s2 where r: "read_email_loop env ?ids [] ?s1 = (Inr c, s2)"
      using read_email_loop_never_raises [of env ?ids "[]" ?s1] by blast
    show ?thesis
    proof (cases "c = []")
      case True
      with False r show ?thesis
        by (simp add: main_def bind_def search_gmail_cases read_email_def)
    next
      case nc: False
      with False r have "main env s = for_each_email env c s2"
        by (simp add: main_def bind_def search_gmail_cases read_email_def)
      then show ?thesis by (simp add: for_each_email_never_raises)
    qed
  qed
qed

lemma main_search_fails:
  "gmail_search_tool env (trace s) ''subject:application has:attachment'' = Inl e \<Longrightarrow>
   main env s = (Inr (), call (GmailSearch ''subject:application has:attachment'') s)"
  by (simp add: main_def bind_def search_gmail_cases)

lemma main_reads_fail:
  assumes "\<forall>h i. \<exists>e. gmail_get_message env h i = Inl e"
  shows "sheets (snd (main env s)) = sheets s"
proof -
  let ?ids = "case gmail_search_tool env (trace s) ''subject:application has:attachment'' of
             Inr msg_ids \<Rightarrow> msg_ids | Inl e \<Rightarrow> []"
  let ?s1 = "call (GmailSearch ''subject:application has:attachment'') s"
  obtain s2 where r: "read_email_loop env ?ids [] ?s1 = (Inr [], s2)" and sh: "sheets s2 = sheets ?s1"
    using read_email_loop_all_fail [OF assms, of ?ids "[]" ?s1] by blast
  show ?thesis
  proof (cases "?ids = []")
    case True
    then show ?thesis by (simp add: main_def bind_def search_gmail_cases)
  next
    case False
    with r sh show ?thesis
      by (simp add: main_def bind_def search_gmail_cases read_email_def)
  qed
qed

text \<open>
  C3, as the code has it. One pass of \<open>main\<close> returns without raising for every
  behaviour of the collaborators, so a turn of the scheduling loop around it
  succeeds at the first attempt with no 10-second sleep. When the search call
  fails, \<open>search_gmail\<close> catches the failure and returns the empty list: the pass
  ends early, having made the search call only, and returns normally. When every
  read fails, \<open>read_email\<close> skips every message and the pass leaves the stores
  as they were.
\<close>

theorem main_never_raises:
  "fst (main env s) = Inr () \<and>
   cycle (main env) s = (True, snd (main env s), [Attempt 1, Completed, Sleep 3600]) \<and>
   (gmail_search_tool env (trace s) ''subject:application has:attachment'' = Inl e \<longrightarrow>
      main env s = (Inr (), call (GmailSearch ''subject:application has:attachment'') s)) \<and>
   ((\<forall>h i. \<exists>e. gmail_get_message env h i = Inl e) \<longrightarrow> sheets (snd (main env s)) = sheets s)"
proof (intro conjI impI)
  show 1: "fst (main env s) = Inr ()" by (rule main_never_raises_aux)
  then have "main env s = (Inr (), snd (main env s))" by (metis prod.collapse)
  then show "cycle (main env) s = (True, snd (main env s), [Attempt 1, Completed, Sleep 3600])"
    using cycle_first [of "main env" s "()" "snd (main env s)"] by simp
next
  assume "gmail_search_tool env (trace s) ''subject:application has:attachment'' = Inl e"
  then show "main env s = (Inr (), call (GmailSearch ''subject:application has:attachment'') s)"
    by (rule main_search_fails)
next
  assume "\<forall>h i. \<exists>e. gmail_get_message env h i = Inl e"
  then show "sheets (snd (main env s)) = sheets s" by (rule main_reads_fail)
qed

theorem main_never_raises_witness:
  "gmail_search_tool env_search_down (trace world0) ''subject:application has:attachment'' =
     Inl (APIError ''mailbox unavailable'') \<and>
   fst (main env_search_down world0) = Inr () \<and>
   snd (main env_search_down world0) =
     call (GmailSearch ''subject:application has:attachment'') world0 \<and>
   cycle (main env_search_down) world0 =
     (True, call (GmailSearch ''subject:application has:attachment'') world0,
      [Attempt 1, Completed, Sleep 3600])"
proof -
  have h: "gmail_search_tool env_search_down (trace world0) ''subject:application has:attachment'' =
     Inl (APIError ''mailbox unavailable'')"
    by (simp add: env_search_down_def)
  from main_never_raises [of env_search_down world0 "APIError ''mailbox unavailable''"] h
  show ?thesis by simp
qed

text \<open>
  C3 as stated says that a failing discovery call is raised to the retry wrapper.
  With a mailbox whose search raises, \<open>main\<close> returns normally.
\<close>

theorem discovery_failure_counterexample:
  "gmail_search_tool env_search_down (trace world0) ''subject:application has:attachment'' =
     Inl (APIError ''mailbox unavailable'') \<and>
   main env_search_down world0 =
     (Inr (), call (GmailSearch ''subject:application has:attachment'') world0)"
  by (simp add: main_def bind_def search_gmail_def Let_def env_search_down_def)

end
